theory Spec2Isabelle
  imports Main
begin

section \<open>Data model of \<open>archr/arsenal/qemu_tracer.py\<close>\<close>

text \<open>
  Byte strings (\<open>bytes\<close>) and the file names and command-line words of the tracer are
  \<open>string\<close>s (lists of 8-bit characters). A Python \<open>str\<close> that is written to the
  traced process is a list of code points, because \<open>fire\<close> encodes it to UTF-8.
\<close>

type_synonym bytes = string
type_synonym pystr = "nat list"

datatype signal_t = SIGSEGV | SIGILL

text \<open>
  The exceptions the tracer can raise. \<open>ArchrError\<close> carries its message.
  \<open>StopIteration\<close> is the exception of \<open>next\<close> on an exhausted iterator (inside the
  generator \<open>fire_context\<close> Python 3.7 and later re-raise it as a RuntimeError).
  \<open>OtherError\<close> stands for an exception raised by the execution target.
\<close>

datatype error =
    ArchrError string
  | TimeoutExpired
  | StopIteration
  | IndexError
  | AttributeError
  | ValueError
  | UnicodeEncodeError
  | OtherError string

datatype stdin_event = Write bytes | Close

record process =
  proc_args :: "string list"
  proc_returncode :: "int option"
  proc_stdin :: "stdin_event list"

text \<open>Class \<open>TraceResults\<close>: every attribute starts as \<open>None\<close>.\<close>

record TraceResults =
  process :: "process option"
  returncode :: "int option"
  signal :: "signal_t option"
  crashed :: "bool option"
  timed_out :: "bool option"
  trace :: "int list option"
  crash_address :: "int option"
  base_address :: "int option"
  magic_contents :: "bytes option"
  core_path :: "string option"

definition new_TraceResults :: TraceResults where
  "new_TraceResults =
     \<lparr> process = None, returncode = None, signal = None, crashed = None,
       timed_out = None, trace = None, crash_address = None, base_address = None,
       magic_contents = None, core_path = None \<rparr>"

subsection \<open>Python values compared by the crash classification\<close>

text \<open>
  \<open>r.returncode in [139, -11]\<close> and \<open>r.returncode == [132, -9]\<close> compare an integer
  (or \<open>None\<close>) with integers and with a list. Python's \<open>==\<close> between an \<open>int\<close> and a
  \<open>list\<close> is \<open>False\<close>; on these values it is structural equality.
\<close>

datatype pyval = PyNone | PyInt int | PyList "pyval list"

definition py_of_returncode :: "int option \<Rightarrow> pyval" where
  "py_of_returncode rc = (case rc of None \<Rightarrow> PyNone | Some n \<Rightarrow> PyInt n)"

definition py_eq :: "pyval \<Rightarrow> pyval \<Rightarrow> bool" where
  "py_eq a b = (a = b)"

definition py_in :: "pyval \<Rightarrow> pyval list \<Rightarrow> bool" where
  "py_in a xs = list_ex (py_eq a) xs"

text \<open>Lines 90 to 99 of \<open>fire_context\<close>: the exit status and the crash classification.\<close>

definition classify_exit :: "TraceResults \<Rightarrow> TraceResults" where
  "classify_exit r =
     (if timed_out r \<noteq> Some True then
        (let r1 = r\<lparr>returncode := (case process r of None \<Rightarrow> None
                                     | Some p \<Rightarrow> proc_returncode p)\<rparr>;
             rc = py_of_returncode (returncode r1)
         in if py_in rc [PyInt 139, PyInt (- 11)] then
              r1\<lparr>crashed := Some True, signal := Some SIGSEGV\<rparr>
            else if py_eq rc (PyList [PyInt 132, PyInt (- 9)]) then
              r1\<lparr>crashed := Some True, signal := Some SIGILL\<rparr>
            else r1)
      else r)"


section \<open>Byte-string operations used by the trace parser\<close>

definition startswith :: "bytes \<Rightarrow> bytes \<Rightarrow> bool" where
  "startswith t pre = (take (length pre) t = pre)"

text \<open>ASCII whitespace of \<open>bytes.split\<close>, \<open>bytes.strip\<close> and \<open>int\<close>: space, tab, LF, VT, FF, CR.\<close>

definition is_space :: "char \<Rightarrow> bool" where
  "is_space c = (c = CHR '' '' \<or> c = CHR 0x09 \<or> c = CHR 0x0A \<or> c = CHR 0x0B
                 \<or> c = CHR 0x0C \<or> c = CHR 0x0D)"

text \<open>\<open>bytes.splitlines()\<close>: lines end at LF, CR or CR LF; no empty last line.\<close>

fun splitlines_from :: "bytes \<Rightarrow> bytes \<Rightarrow> bytes list" where
  "splitlines_from cur [] = (if cur = [] then [] else [cur])"
| "splitlines_from cur (c # cs) =
     (if c = CHR 0x0A then cur # splitlines_from [] cs
      else if c = CHR 0x0D then
        (case cs of
           [] \<Rightarrow> cur # splitlines_from [] cs
         | d # ds \<Rightarrow> if d = CHR 0x0A then cur # splitlines_from [] ds
                    else cur # splitlines_from [] cs)
      else splitlines_from (cur @ [c]) cs)"

definition splitlines :: "bytes \<Rightarrow> bytes list" where
  "splitlines b = splitlines_from [] b"

text \<open>\<open>bytes.split()\<close> without a separator: the maximal runs of non-whitespace.\<close>

fun split_from :: "bytes \<Rightarrow> bytes \<Rightarrow> bytes list" where
  "split_from cur [] = (if cur = [] then [] else [cur])"
| "split_from cur (c # cs) =
     (if is_space c then (if cur = [] then split_from [] cs else cur # split_from [] cs)
      else split_from (cur @ [c]) cs)"

definition split_ws :: "bytes \<Rightarrow> bytes list" where
  "split_ws b = split_from [] b"

text \<open>Indexing a list with a constant, \<open>xs[1]\<close> and \<open>xs[-1]\<close>, raising IndexError.\<close>

definition index1 :: "'a list \<Rightarrow> error + 'a" where
  "index1 xs = (if 1 < length xs then Inr (xs ! 1) else Inl IndexError)"

definition index_last :: "'a list \<Rightarrow> error + 'a" where
  "index_last xs = (if xs = [] then Inl IndexError else Inr (last xs))"

subsection \<open>\<open>int(b, 16)\<close>\<close>

definition hex_digit_val :: "char \<Rightarrow> nat option" where
  "hex_digit_val c =
     (let n = of_char c :: nat in
      if 48 \<le> n \<and> n \<le> 57 then Some (n - 48)
      else if 97 \<le> n \<and> n \<le> 102 then Some (n - 87)
      else if 65 \<le> n \<and> n \<le> 70 then Some (n - 55)
      else None)"

text \<open>
  The digit scan of CPython's \<open>PyLong_FromString\<close> for a base that is a power of two:
  it runs over digits and underscores, fails on two underscores in a row and on a
  trailing underscore, and returns the value, whether a digit was seen, and the rest.
\<close>

fun hex_scan :: "int \<Rightarrow> bool \<Rightarrow> bool \<Rightarrow> bytes \<Rightarrow> (int \<times> bool \<times> bytes) option" where
  "hex_scan acc seen us [] = (if us then None else Some (acc, seen, []))"
| "hex_scan acc seen us (c # cs) =
     (if c = CHR ''_'' then (if us then None else hex_scan acc seen True cs)
      else (case hex_digit_val c of
              Some d \<Rightarrow> hex_scan (16 * acc + int d) True False cs
            | None \<Rightarrow> if us then None else Some (acc, seen, c # cs)))"

text \<open>
  \<open>int(b, 16)\<close> on bytes: leading whitespace, an optional sign, an optional \<open>0x\<close> or
  \<open>0X\<close> (one underscore may follow it), the digits, trailing whitespace, and nothing
  else. \<open>None\<close> is ValueError.
\<close>

definition py_int16 :: "bytes \<Rightarrow> int option" where
  "py_int16 b =
     (let s1 = dropWhile is_space b;
          neg = startswith s1 ''-'';
          s2 = (if startswith s1 ''+'' \<or> neg then tl s1 else s1);
          s3 = (if startswith s2 ''0x'' \<or> startswith s2 ''0X''
                then (let t = drop 2 s2 in if startswith t ''_'' then tl t else t)
                else s2)
      in if startswith s3 ''_'' then None
         else (case hex_scan 0 False False s3 of
                 None \<Rightarrow> None
               | Some (v, seen, rest) \<Rightarrow>
                   if \<not> seen then None
                   else if dropWhile is_space rest = [] then Some (if neg then - v else v)
                   else None))"

subsection \<open>The two trace patterns\<close>

text \<open>
  Both patterns are sequences of literals and greedy \<open>.*\<close>. \<open>rx_match\<close> is
  \<open>re.match\<close> on such a sequence: it is anchored at the start of the line, \<open>.\<close>
  matches every byte but LF, and a \<open>.*\<close> tries the longest run first and gives bytes
  back one at a time until the rest of the pattern matches. The result lists the text
  of every \<open>.*\<close> under a name, the last one first: the name of its group, \<open>1\<close> for
  the unnamed first group, and \<open>tail\<close> for the final \<open>.*\<close>, which stands outside
  every group and which \<open>group('addr')\<close> does not read.
\<close>

datatype rx_item = Lit bytes | DotStar string

function rx_match :: "rx_item list \<Rightarrow> bytes \<Rightarrow> (string \<times> bytes) list
                        \<Rightarrow> (string \<times> bytes) list option"
  and rx_star :: "string \<Rightarrow> rx_item list \<Rightarrow> bytes \<Rightarrow> nat \<Rightarrow> (string \<times> bytes) list
                    \<Rightarrow> (string \<times> bytes) list option" where
  "rx_match [] s caps = Some caps"
| "rx_match (Lit l # rs) s caps =
     (if startswith s l then rx_match rs (drop (length l) s) caps else None)"
| "rx_match (DotStar g # rs) s caps =
     rx_star g rs s (length (takeWhile (\<lambda>c. c \<noteq> CHR 0x0A) s)) caps"
| "rx_star g rs s k caps =
     (case rx_match rs (drop k s) ((g, take k s) # caps) of
        Some m \<Rightarrow> Some m
      | None \<Rightarrow> (case k of 0 \<Rightarrow> None | Suc j \<Rightarrow> rx_star g rs s j caps))"
  by pat_completeness auto
termination
  by (relation "measures
        [\<lambda>x. case x of Inl (rs, _, _) \<Rightarrow> 2 * length rs
                      | Inr (_, rs, _, _, _) \<Rightarrow> 2 * length rs + 1,
         \<lambda>x. case x of Inl _ \<Rightarrow> 0 | Inr (_, _, _, k, _) \<Rightarrow> k]") auto

declare rx_star.simps [simp del]

text \<open>\<open>br'Trace (.*) \[(?P<addr>.*)\].*'\<close>\<close>

definition trace_old_re :: "rx_item list" where
  "trace_old_re =
     [Lit ''Trace '', DotStar ''1'', Lit '' ['', DotStar ''addr'', Lit '']'', DotStar ''tail'']"

text \<open>\<open>br'Trace (.*) \[(?P<something1>.*)\/(?P<addr>.*)\/(?P<flags>.*)\].*'\<close>\<close>

definition trace_new_re :: "rx_item list" where
  "trace_new_re =
     [Lit ''Trace '', DotStar ''1'', Lit '' ['', DotStar ''something1'', Lit ''/'',
      DotStar ''addr'', Lit ''/'', DotStar ''flags'', Lit '']'', DotStar ''tail'']"

text \<open>\<open>_trace_re.match(t).group('addr')\<close>: no match is \<open>None.group\<close>, an AttributeError.\<close>

definition match_addr :: "rx_item list \<Rightarrow> bytes \<Rightarrow> error + bytes" where
  "match_addr re t =
     (case rx_match re t [] of
        None \<Rightarrow> Inl AttributeError
      | Some m \<Rightarrow> (case map_of m ''addr'' of None \<Rightarrow> Inl IndexError | Some a \<Rightarrow> Inr a))"


section \<open>The execution target and the local file system\<close>

text \<open>
  Class \<open>Target\<close> is used through its attributes and three methods. The attributes
  are fields; the files of the target are a map from path to contents, read by
  \<open>retrieve_contents\<close> and \<open>retrieve_into\<close>; \<open>resolve_glob\<close> is a field, since
  its code is not part of these sources. \<open>proc_exit\<close> is the return code that the
  emulator process has once \<open>run_context\<close> is left.
\<close>

record target =
  target_os :: string
  target_arch :: string
  target_env :: "string list"
  target_args :: "string list"
  resolve_glob :: "string \<Rightarrow> string list"
  target_files :: "string \<rightharpoonup> bytes"
  proc_exit :: "int option"

text \<open>The local file system: paths with their contents, in directory order.\<close>

type_synonym lfs = "(string \<times> bytes) list"

text \<open>The names that \<open>tempfile\<close> hands out during one session.\<close>

record tmpnames =
  tmpdir :: string
  tmp_prefix :: string
  local_tmpdir :: string

definition endswith :: "bytes \<Rightarrow> bytes \<Rightarrow> bool" where
  "endswith t suf = (length suf \<le> length t \<and> drop (length t - length suf) t = suf)"

text \<open>\<open>os.path.join\<close> of two components and \<open>os.path.basename\<close> (POSIX).\<close>

definition path_join :: "string \<Rightarrow> string \<Rightarrow> string" where
  "path_join a b =
     (if startswith b ''/'' then b
      else if a = [] \<or> endswith a ''/'' then a @ b
      else a @ ''/'' @ b)"

definition basename :: "string \<Rightarrow> string" where
  "basename p = rev (takeWhile (\<lambda>c. c \<noteq> CHR ''/'') (rev p))"

text \<open>Modelled from the spec: \<open>Target.retrieve_contents\<close>, which is not in these sources:
  a whole-file read from the execution environment.\<close>

definition retrieve_contents :: "target \<Rightarrow> string \<Rightarrow> error + bytes" where
  "retrieve_contents tgt path =
     (case target_files tgt path of
        None \<Rightarrow> Inl (OtherError ''retrieve_contents'')
      | Some b \<Rightarrow> Inr b)"

text \<open>Modelled from the spec: \<open>Target.retrieve_into\<close>, which is not in these sources:
  a whole-file copy from the execution environment into a local directory, under the
  file's own name.\<close>

definition retrieve_into :: "target \<Rightarrow> string \<Rightarrow> string \<Rightarrow> lfs \<Rightarrow> error + lfs" where
  "retrieve_into tgt remote_path local_dir fs =
     (case target_files tgt remote_path of
        None \<Rightarrow> Inl (OtherError ''retrieve_into'')
      | Some b \<Rightarrow>
          (let dst = path_join local_dir (basename remote_path)
           in Inr (filter (\<lambda>e. fst e \<noteq> dst) fs @ [(dst, b)])))"

text \<open>
  \<open>glob.glob(os.path.join(d, "qemu_*.core"))\<close> for a directory name \<open>d\<close> without
  pattern characters: the files of \<open>d\<close> named \<open>qemu_\<close>, anything, \<open>.core\<close>.
\<close>

definition is_core_name :: "string \<Rightarrow> bool" where
  "is_core_name n = (startswith n ''qemu_'' \<and> endswith (drop 5 n) ''.core'')"

definition local_glob_cores :: "string \<Rightarrow> lfs \<Rightarrow> string list" where
  "local_glob_cores d fs =
     filter (\<lambda>p. p = path_join d (basename p) \<and> is_core_name (basename p)) (map fst fs)"

text \<open>\<open>shutil.move\<close> of a file to a path that is not a directory.\<close>

definition move_file :: "string \<Rightarrow> string \<Rightarrow> lfs \<Rightarrow> lfs" where
  "move_file src dst fs =
     (case map_of fs src of
        None \<Rightarrow> fs
      | Some b \<Rightarrow> filter (\<lambda>e. fst e \<noteq> src \<and> fst e \<noteq> dst) fs @ [(dst, b)])"

text \<open>\<open>shutil.rmtree\<close> at the end of \<open>_local_mk_tmpdir\<close>.\<close>

definition rmtree :: "string \<Rightarrow> lfs \<Rightarrow> lfs" where
  "rmtree d fs = filter (\<lambda>e. \<not> startswith (fst e) (d @ ''/'')) fs"

section \<open>Decimal output\<close>

definition digit_char :: "nat \<Rightarrow> char" where
  "digit_char d = char_of (48 + d)"

fun str_nat :: "nat \<Rightarrow> string" where
  "str_nat n = (if n < 10 then [digit_char n] else str_nat (n div 10) @ [digit_char (n mod 10)])"

declare str_nat.simps [simp del]

definition str_int :: "int \<Rightarrow> string" where
  "str_int i = (if i < 0 then ''-'' @ str_nat (nat (- i)) else str_nat (nat i))"


section \<open>The command builder\<close>

text \<open>\<open>sub in s\<close> on strings.\<close>

fun contains :: "string \<Rightarrow> string \<Rightarrow> bool" where
  "contains sub [] = (sub = [])"
| "contains sub (c # cs) = (startswith (c # cs) sub \<or> contains sub cs)"

definition qemu_variant :: "target \<Rightarrow> bool \<Rightarrow> string" where
  "qemu_variant tgt record_trace =
     (if target_os tgt = ''cgc''
      then ''shellphish-qemu-cgc-'' @ (if record_trace then ''tracer'' else ''base'')
      else ''shellphish-qemu-linux-'' @ target_arch tgt)"

text \<open>The truth value of an optional string: \<open>None\<close> and the empty string are false.\<close>

definition truthy :: "string option \<Rightarrow> bool" where
  "truthy f = (case f of None \<Rightarrow> False | Some x \<Rightarrow> x \<noteq> [])"

definition build_command ::
  "target \<Rightarrow> string option \<Rightarrow> string option \<Rightarrow> string option \<Rightarrow> string \<Rightarrow> bool
     \<Rightarrow> int option \<Rightarrow> string list" where
  "build_command tgt trace_filename library_path magic_filename coredump_dir
                 report_bad_args seed =
     (let variant = qemu_variant tgt (trace_filename \<noteq> None);
          cmd1 = [''/tmp/shellphish_qemu/fire'', variant] @ [''-C'', coredump_dir];
          cmd2 = cmd1 @
            (if truthy trace_filename then
               (if \<not> contains ''cgc'' variant
                then [''-d'', ''nochain,exec,page'', ''-D'', the trace_filename]
                else [''-d'', ''exec'', ''-D'', the trace_filename])
             else [''-enable_double_empty_exiting'']);
          cmd3 = cmd2 @
            (if truthy magic_filename then [''-magicdump'', the magic_filename] else []);
          cmd4 = cmd3 @ (case seed of None \<Rightarrow> [] | Some n \<Rightarrow> [''-seed'', str_int n]);
          cmd5 = cmd4 @ (if report_bad_args then [''-report_bad_args''] else []);
          cmd6 = cmd5 @ (if contains ''cgc'' variant then [''-m'', ''8G''] else []);
          cmd7 = cmd6 @
            (if \<not> contains ''cgc'' variant \<and> ''LD_BIND_NOW=1'' \<notin> set (target_env tgt)
             then [''-E'', ''LD_BIND_NOW=1''] else []);
          cmd8 = cmd7 @
            (if truthy library_path then [''-E'', ''LD_LIBRARY_PATH='' @ the library_path]
             else [])
      in cmd8 @ target_args tgt)"

section \<open>\<open>fire_context\<close>\<close>

record options =
  timeout :: int
  record_trace :: bool
  record_magic :: bool
  save_core :: bool
  library_path :: "string option"
  report_bad_args :: bool
  seed :: "int option"

text \<open>
  A step works on the result object and the local file system and may raise: the
  state it returns is the one reached when the exception left the step.
\<close>

type_synonym session = "TraceResults \<times> lfs"
type_synonym outcome = "session \<times> error option"

definition and_then :: "outcome \<Rightarrow> (session \<Rightarrow> outcome) \<Rightarrow> outcome" where
  "and_then x f = (case snd x of None \<Rightarrow> f (fst x) | Some e \<Rightarrow> x)"

text \<open>Lines 101 to 109: the core file.\<close>

definition retrieve_core :: "target \<Rightarrow> tmpnames \<Rightarrow> string option \<Rightarrow> session \<Rightarrow> outcome" where
  "retrieve_core tgt nm local_core_filename st =
     (if truthy local_core_filename then
        (let (r, fs) = st;
             target_cores = resolve_glob tgt (path_join (tmpdir nm) ''qemu_*.core'')
         in if length target_cores \<noteq> 1 then
              (st, Some (ArchrError (''expected 1 core file but found ''
                                      @ str_nat (length target_cores))))
            else
              (case retrieve_into tgt (target_cores ! 0) (local_tmpdir nm) fs of
                 Inl e \<Rightarrow> ((r, rmtree (local_tmpdir nm) fs), Some e)
               | Inr fs1 \<Rightarrow>
                   (case local_glob_cores (local_tmpdir nm) fs1 of
                      [] \<Rightarrow> ((r, rmtree (local_tmpdir nm) fs1), Some IndexError)
                    | c # _ \<Rightarrow>
                        (let fs2 = move_file c (the local_core_filename) fs1
                         in ((r\<lparr>core_path := local_core_filename\<rparr>,
                              rmtree (local_tmpdir nm) fs2), None)))))
      else (st, None))"

text \<open>
  Line 116: the first line that starts with \<open>start_code\<close>, its second field read as a
  hexadecimal number; the result also holds the lines left in the iterator.
\<close>

fun find_base :: "bytes list \<Rightarrow> error + (int \<times> bytes list)" where
  "find_base [] = Inl StopIteration"
| "find_base (t # ts) =
     (if startswith t ''start_code'' then
        (case index1 (split_ws t) of
           Inl e \<Rightarrow> Inl e
         | Inr f \<Rightarrow> (case py_int16 f of None \<Rightarrow> Inl ValueError
                                        | Some b \<Rightarrow> Inr (b, ts)))
      else find_base ts)"

text \<open>Lines 120 to 122: the list comprehension over the lines left.\<close>

fun parse_entries :: "rx_item list \<Rightarrow> bytes list \<Rightarrow> error + int list" where
  "parse_entries re [] = Inr []"
| "parse_entries re (t # ts) =
     (if startswith t ''Trace '' then
        (case match_addr re t of
           Inl e \<Rightarrow> Inl e
         | Inr a \<Rightarrow>
             (case py_int16 a of
                None \<Rightarrow> Inl ValueError
              | Some v \<Rightarrow> (case parse_entries re ts of
                             Inl e \<Rightarrow> Inl e
                           | Inr vs \<Rightarrow> Inr (v # vs))))
      else parse_entries re ts)"

text \<open>Lines 111 to 128: the trace.\<close>

definition retrieve_trace :: "target \<Rightarrow> string option \<Rightarrow> session \<Rightarrow> outcome" where
  "retrieve_trace tgt target_trace_filename st =
     (if truthy target_trace_filename then
        (let (r, fs) = st in
         case retrieve_contents tgt (the target_trace_filename) of
           Inl e \<Rightarrow> (st, Some e)
         | Inr content \<Rightarrow>
             (case find_base (splitlines content) of
                Inl e \<Rightarrow> (st, Some e)
              | Inr (b, rest) \<Rightarrow>
                  (let r1 = r\<lparr>base_address := Some b\<rparr>;
                       re = (if target_os tgt = ''cgc'' then trace_old_re else trace_new_re)
                   in case parse_entries re rest of
                        Inl e \<Rightarrow> ((r1, fs), Some e)
                      | Inr tr \<Rightarrow>
                          (let r2 = r1\<lparr>trace := Some tr\<rparr>
                           in if crashed r2 = Some True then
                                (case index_last tr of
                                   Inl e \<Rightarrow> ((r2, fs), Some e)
                                 | Inr a \<Rightarrow> ((r2\<lparr>crash_address := Some a\<rparr>, fs), None))
                              else ((r2, fs), None)))))
      else (st, None))"

text \<open>Lines 130 to 133: the magic page.\<close>

definition retrieve_magic :: "target \<Rightarrow> string option \<Rightarrow> session \<Rightarrow> outcome" where
  "retrieve_magic tgt target_magic_filename st =
     (if truthy target_magic_filename then
        (let (r, fs) = st in
         case retrieve_contents tgt (the target_magic_filename) of
           Inl e \<Rightarrow> (st, Some e)
         | Inr m \<Rightarrow>
             (let r1 = r\<lparr>magic_contents := Some m\<rparr>
              in if length m \<noteq> 0x1000 then
                   ((r1, fs), Some (ArchrError
                      ''Magic content read from QEMU improper size, should be a page in length''))
                 else ((r1, fs), None)))
      else (st, None))"

text \<open>Lines 73 to 78: the file names of the session and the command.\<close>

definition target_trace_filename :: "tmpnames \<Rightarrow> options \<Rightarrow> string option" where
  "target_trace_filename nm opts =
     (if record_trace opts then Some (tmp_prefix nm @ ''.trace'') else None)"

definition target_magic_filename :: "tmpnames \<Rightarrow> options \<Rightarrow> string option" where
  "target_magic_filename nm opts =
     (if record_magic opts then Some (tmp_prefix nm @ ''.magic'') else None)"

definition local_core_filename :: "tmpnames \<Rightarrow> options \<Rightarrow> string option" where
  "local_core_filename nm opts =
     (if save_core opts then Some (tmp_prefix nm @ ''.core'') else None)"

definition target_cmd :: "target \<Rightarrow> tmpnames \<Rightarrow> options \<Rightarrow> string list" where
  "target_cmd tgt nm opts =
     build_command tgt (target_trace_filename nm opts) (library_path opts)
       (target_magic_filename nm opts) (tmpdir nm) (report_bad_args opts) (seed opts)"

text \<open>The process that \<open>run_context\<close> starts, before the caller has touched it.\<close>

definition started :: "target \<Rightarrow> tmpnames \<Rightarrow> options \<Rightarrow> process" where
  "started tgt nm opts =
     \<lparr>proc_args = target_cmd tgt nm opts, proc_returncode = None, proc_stdin = []\<rparr>"

text \<open>Lines 101 to 133 in their order: each step runs if the one before did not raise.\<close>

definition retrieve_all :: "target \<Rightarrow> tmpnames \<Rightarrow> options \<Rightarrow> session \<Rightarrow> outcome" where
  "retrieve_all tgt nm opts st =
     and_then (and_then
       (retrieve_core tgt nm (local_core_filename nm opts) st)
       (retrieve_trace tgt (target_trace_filename nm opts)))
       (retrieve_magic tgt (target_magic_filename nm opts))"

text \<open>
  \<open>fire_context\<close>. The body of the caller's \<open>with\<close> statement is a function on the
  process that may raise; \<open>TimeoutExpired\<close> is caught and recorded, every other
  exception leaves the session at once. \<open>Target.run_context\<close> is not part of these
  sources: it is taken to start the process with the command and, when it is left, to
  leave the process with the return code \<open>proc_exit\<close>, raising nothing of its own.
  The scratch directory of \<open>_target_mk_tmpdir\<close> is a name only; the commands that
  make and remove it on the target are not modelled.
\<close>

definition fire_context ::
  "target \<Rightarrow> tmpnames \<Rightarrow> options \<Rightarrow> (process \<Rightarrow> process \<times> error option) \<Rightarrow> lfs \<Rightarrow> outcome" where
  "fire_context tgt nm opts body fs =
     (let r = new_TraceResults\<lparr>process := Some (started tgt nm opts)\<rparr>;
          (p1, raised) = body (started tgt nm opts)
      in if raised \<noteq> None \<and> raised \<noteq> Some TimeoutExpired then
           ((r\<lparr>process := Some p1\<rparr>, fs), raised)
         else
           (let r1 = r\<lparr>process := Some (p1\<lparr>proc_returncode := proc_exit tgt\<rparr>),
                       timed_out := Some (raised = Some TimeoutExpired)\<rparr>
            in retrieve_all tgt nm opts (classify_exit r1, fs)))"

section \<open>\<open>fire\<close>\<close>

text \<open>A test case is one \<open>str\<close> or \<open>bytes\<close> value, or a sequence of them.\<close>

datatype chunk = Str pystr | Bytes bytes

datatype testcase = Single chunk | Many "chunk list"

text \<open>
  \<open>str.encode('utf-8')\<close>: one to four bytes per code point; a surrogate
  (\<open>0xD800\<close> to \<open>0xDFFF\<close>) cannot be encoded and raises UnicodeEncodeError.
\<close>

definition utf8_char :: "nat \<Rightarrow> bytes option" where
  "utf8_char cp =
     (if cp < 0x80 then Some [char_of cp]
      else if cp < 0x800 then
        Some [char_of (0xC0 + cp div 64), char_of (0x80 + cp mod 64)]
      else if 0xD800 \<le> cp \<and> cp \<le> 0xDFFF then None
      else if cp < 0x10000 then
        Some [char_of (0xE0 + cp div 4096), char_of (0x80 + (cp div 64) mod 64),
              char_of (0x80 + cp mod 64)]
      else if cp < 0x110000 then
        Some [char_of (0xF0 + cp div 262144), char_of (0x80 + (cp div 4096) mod 64),
              char_of (0x80 + (cp div 64) mod 64), char_of (0x80 + cp mod 64)]
      else None)"

fun utf8_encode :: "pystr \<Rightarrow> bytes option" where
  "utf8_encode [] = Some []"
| "utf8_encode (cp # cps) =
     (case utf8_char cp of
        None \<Rightarrow> None
      | Some b \<Rightarrow> (case utf8_encode cps of None \<Rightarrow> None | Some bs \<Rightarrow> Some (b @ bs)))"

text \<open>\<open>t.encode('utf-8') if type(t) is str else t\<close>\<close>

definition chunk_bytes :: "chunk \<Rightarrow> error + bytes" where
  "chunk_bytes t =
     (case t of
        Str u \<Rightarrow> (case utf8_encode u of None \<Rightarrow> Inl UnicodeEncodeError | Some b \<Rightarrow> Inr b)
      | Bytes b \<Rightarrow> Inr b)"

definition stdin_write :: "bytes \<Rightarrow> process \<Rightarrow> process" where
  "stdin_write b p = p\<lparr>proc_stdin := proc_stdin p @ [Write b]\<rparr>"

definition stdin_close :: "process \<Rightarrow> process" where
  "stdin_close p = p\<lparr>proc_stdin := proc_stdin p @ [Close]\<rparr>"

text \<open>Lines 63 to 66: the body of the \<open>with\<close> statement of \<open>fire\<close>.\<close>

fun write_all :: "chunk list \<Rightarrow> process \<Rightarrow> process \<times> error option" where
  "write_all [] p = (p, None)"
| "write_all (t # ts) p =
     (case chunk_bytes t of
        Inl e \<Rightarrow> (p, Some e)
      | Inr b \<Rightarrow> write_all ts (stdin_write b p))"

definition fire_body :: "chunk list \<Rightarrow> process \<Rightarrow> process \<times> error option" where
  "fire_body ts p =
     (case write_all ts p of
        (p1, None) \<Rightarrow> (stdin_close p1, None)
      | (p1, Some e) \<Rightarrow> (p1, Some e))"

text \<open>Lines 59 and 60: one \<open>str\<close> or \<open>bytes\<close> value becomes a list of one element.\<close>

definition as_list :: "testcase \<Rightarrow> chunk list" where
  "as_list tc = (case tc of Single t \<Rightarrow> [t] | Many ts \<Rightarrow> ts)"

definition fire :: "target \<Rightarrow> tmpnames \<Rightarrow> options \<Rightarrow> testcase \<Rightarrow> lfs \<Rightarrow> outcome" where
  "fire tgt nm opts tc fs = fire_context tgt nm opts (fire_body (as_list tc)) fs"


section \<open>Well-formed trace files\<close>

text \<open>
  What a trace log looks like, for the statements about the parser. A hexadecimal
  field is a non-empty run of hexadecimal digits, and \<open>hex_value\<close> is the number it
  denotes. The load-base line is \<open>start_code 0x\<close> and the address. A trace entry of
  the CGC emulator is \<open>Trace pc [addr]sym\<close>, one of the other emulators is
  \<open>Trace pc [cs/addr/flags]sym\<close>. In a well-formed entry the address is hexadecimal,
  no field holds a line break or a closing bracket, the \<open>pc\<close> field of a CGC entry
  holds no opening bracket, and the fields before the closing bracket of the other
  format hold no slash. A file is its lines, each ended by LF.
\<close>

definition lf_lines :: "bytes list \<Rightarrow> bytes" where
  "lf_lines ls = concat (map (\<lambda>l. l @ [CHR 0x0A]) ls)"

definition is_hex :: "bytes \<Rightarrow> bool" where
  "is_hex h = (h \<noteq> [] \<and> list_all (\<lambda>c. hex_digit_val c \<noteq> None) h)"

definition hex_value :: "bytes \<Rightarrow> int" where
  "hex_value h = foldl (\<lambda>a c. 16 * a + int (the (hex_digit_val c))) 0 h"

record trace_entry =
  te_pc :: bytes
  te_cs :: bytes
  te_addr :: bytes
  te_flags :: bytes
  te_sym :: bytes

definition start_code_line :: "bytes \<Rightarrow> bytes" where
  "start_code_line h = ''start_code 0x'' @ h"

definition entry_line :: "bool \<Rightarrow> trace_entry \<Rightarrow> bytes" where
  "entry_line cgc t =
     (if cgc then ''Trace '' @ te_pc t @ '' ['' @ te_addr t @ '']'' @ te_sym t
      else ''Trace '' @ te_pc t @ '' ['' @ te_cs t @ ''/'' @ te_addr t @ ''/'' @ te_flags t
           @ '']'' @ te_sym t)"

definition one_line :: "bytes \<Rightarrow> bool" where
  "one_line b = (CHR 0x0A \<notin> set b \<and> CHR 0x0D \<notin> set b)"

definition wf_entry :: "bool \<Rightarrow> trace_entry \<Rightarrow> bool" where
  "wf_entry cgc t =
     (is_hex (te_addr t)
      \<and> one_line (te_pc t) \<and> one_line (te_sym t)
      \<and> CHR '']'' \<notin> set (te_pc t) \<and> CHR '']'' \<notin> set (te_sym t)
      \<and> (if cgc then CHR ''['' \<notin> set (te_pc t)
          else one_line (te_cs t) \<and> one_line (te_flags t)
               \<and> CHR '']'' \<notin> set (te_cs t) \<and> CHR '']'' \<notin> set (te_flags t)
               \<and> CHR ''/'' \<notin> set (te_pc t) \<and> CHR ''/'' \<notin> set (te_cs t)
               \<and> CHR ''/'' \<notin> set (te_flags t)))"

definition trace_file :: "bool \<Rightarrow> bytes \<Rightarrow> trace_entry list \<Rightarrow> bytes" where
  "trace_file cgc h ts = lf_lines (start_code_line h # map (entry_line cgc) ts)"

text \<open>
  For the proofs about \<open>rx_match\<close>: the group names of a pattern, and the text that
  a pattern matches when its groups take the given values.
\<close>

fun rx_groups :: "rx_item list \<Rightarrow> string list" where
  "rx_groups [] = []"
| "rx_groups (Lit l # rs) = rx_groups rs"
| "rx_groups (DotStar g # rs) = g # rx_groups rs"

fun rx_text :: "rx_item list \<Rightarrow> bytes list \<Rightarrow> bytes" where
  "rx_text [] vs = []"
| "rx_text (Lit l # rs) vs = l @ rx_text rs vs"
| "rx_text (DotStar g # rs) vs = (case vs of [] \<Rightarrow> [] | v # ws \<Rightarrow> v @ rx_text rs ws)"

section \<open>Example sessions\<close>

text \<open>
  A target of the given OS family whose emulator process ends with the given return
  code, leaves the given core files in the scratch directory and the given files in
  its file system; the names of one session; the default options of \<open>fire_context\<close>;
  and two bodies for the caller's \<open>with\<close> statement: one that does nothing and one in
  which the wait for the process times out.
\<close>

definition example_target ::
  "string \<Rightarrow> int option \<Rightarrow> string list \<Rightarrow> (string \<times> bytes) list \<Rightarrow> target" where
  "example_target os rc cores files =
     \<lparr> target_os = os, target_arch = ''x86_64'', target_env = [''LD_BIND_NOW=1''],
       target_args = [''/bin/true''], resolve_glob = (\<lambda>pat. cores),
       target_files = map_of files, proc_exit = rc \<rparr>"

definition example_names :: tmpnames where
  "example_names =
     \<lparr> tmpdir = ''/tmp/tracer_a'', tmp_prefix = ''/tmp/tracer-b'',
       local_tmpdir = ''/tmp/tracer_c'' \<rparr>"

definition default_options :: options where
  "default_options =
     \<lparr> timeout = 10, record_trace = True, record_magic = False, save_core = False,
       library_path = None, report_bad_args = False, seed = None \<rparr>"

definition idle_body :: "process \<Rightarrow> process \<times> error option" where
  "idle_body p = (p, None)"

definition timeout_body :: "process \<Rightarrow> process \<times> error option" where
  "timeout_body p = (p, Some TimeoutExpired)"

text \<open>A trace of ten blocks in the format of the Linux emulators, and one of two blocks
  in the format of the CGC emulator.\<close>

definition block :: "bytes \<Rightarrow> bytes \<Rightarrow> bytes \<Rightarrow> trace_entry" where
  "block pc addr name =
     \<lparr> te_pc = pc, te_cs = ''00000000'', te_addr = addr, te_flags = ''0x4'', te_sym = name \<rparr>"

definition ten_blocks :: "trace_entry list" where
  "ten_blocks =
     [block ''0: 0x7f2a14000100'' ''0000000000401000'' '' _start'',
      block ''0: 0x7f2a14000240'' ''0000000000401020'' '' '',
      block ''0: 0x7f2a14000380'' ''0000000000401036'' '' '',
      block ''0: 0x7f2a140004c0'' ''0000000000401040'' '' main'',
      block ''0: 0x7f2a14000600'' ''0000000000401056'' '' '',
      block ''0: 0x7f2a14000240'' ''0000000000401020'' '' '',
      block ''0: 0x7f2a14000380'' ''0000000000401036'' '' '',
      block ''0: 0x7f2a14000740'' ''000000000040105e'' '' '',
      block ''0: 0x7f2a14000880'' ''0000000000401070'' '' exit'',
      block ''0: 0x7f2a140009c0'' ''0000000000401000'' '' '']"

definition linux_trace_target :: "int option \<Rightarrow> target" where
  "linux_trace_target rc =
     example_target ''linux'' rc []
       [(''/tmp/tracer-b.trace'', trace_file False ''400000'' ten_blocks)]"

definition two_blocks :: "trace_entry list" where
  "two_blocks =
     [block ''0x4f3c2a10'' ''08048000'' [], block ''0x4f3c2b40'' ''0804801c'' []]"

definition cgc_trace_target :: "int option \<Rightarrow> target" where
  "cgc_trace_target rc =
     example_target ''cgc'' rc []
       [(''/tmp/tracer-b.trace'', trace_file True ''8048000'' two_blocks)]"

text \<open>A target that leaves a magic page of the given size, and one that leaves the
  given core files, of which the first can be read.\<close>

definition magic_target :: "nat \<Rightarrow> target" where
  "magic_target n =
     example_target ''cgc'' (Some 0) [] [(''/tmp/tracer-b.magic'', replicate n (CHR 0x41))]"

definition core_target :: "string list \<Rightarrow> target" where
  "core_target cores =
     example_target ''linux'' (Some 139) cores
       (case cores of [] \<Rightarrow> [] | c # _ \<Rightarrow> [(c, ''ELF-core'')])"

text \<open>Three sessions on the Linux target with the ten-block trace: one that ends with
  return code 0, one whose wait times out, and one that ends with return code 139.\<close>

definition completed_session :: outcome where
  "completed_session =
     fire_context (linux_trace_target (Some 0)) example_names default_options idle_body []"

definition timed_out_session :: outcome where
  "timed_out_session =
     fire_context (linux_trace_target None) example_names default_options timeout_body []"

definition crashed_session :: outcome where
  "crashed_session =
     fire_context (linux_trace_target (Some 139)) example_names default_options idle_body []"

text \<open>Sessions that capture the magic page, and sessions that save the core file.\<close>

definition magic_session :: "nat \<Rightarrow> outcome" where
  "magic_session n =
     fire_context (magic_target n) example_names
       (default_options\<lparr>record_trace := False, record_magic := True\<rparr>) idle_body []"

definition core_session :: "string list \<Rightarrow> outcome" where
  "core_session cores =
     fire_context (core_target cores) example_names
       (default_options\<lparr>record_trace := False, save_core := True\<rparr>) idle_body []"

section \<open>The steps of a session\<close>

lemma and_then_simps:
  "and_then (st, None) f = f st"
  "and_then (st, Some e) f = (st, Some e)"
  by (simp_all add: and_then_def)

lemma retrieve_core_keeps:
  "retrieve_core tgt nm f (r, fs) = ((r', fs'), e) \<Longrightarrow>
     returncode r' = returncode r \<and> signal r' = signal r \<and> crashed r' = crashed r
     \<and> timed_out r' = timed_out r \<and> trace r' = trace r \<and> crash_address r' = crash_address r
     \<and> base_address r' = base_address r \<and> magic_contents r' = magic_contents r
     \<and> process r' = process r"
  by (auto simp: retrieve_core_def Let_def split: if_splits sum.splits list.splits)

lemma retrieve_trace_keeps:
  "retrieve_trace tgt f (r, fs) = ((r', fs'), e) \<Longrightarrow>
     returncode r' = returncode r \<and> signal r' = signal r \<and> crashed r' = crashed r
     \<and> timed_out r' = timed_out r \<and> core_path r' = core_path r \<and> fs' = fs
     \<and> magic_contents r' = magic_contents r \<and> process r' = process r"
  by (auto simp: retrieve_trace_def Let_def split: if_splits sum.splits prod.splits)

lemma retrieve_magic_keeps:
  "retrieve_magic tgt f (r, fs) = ((r', fs'), e) \<Longrightarrow>
     returncode r' = returncode r \<and> signal r' = signal r \<and> crashed r' = crashed r
     \<and> timed_out r' = timed_out r \<and> core_path r' = core_path r \<and> fs' = fs
     \<and> trace r' = trace r \<and> crash_address r' = crash_address r
     \<and> base_address r' = base_address r \<and> process r' = process r"
  by (auto simp: retrieve_magic_def Let_def split: if_splits sum.splits prod.splits)

text \<open>A session ends in the core step, in the trace step, or reaches the magic step.\<close>

lemma retrieve_all_cases:
  assumes "retrieve_all tgt nm opts (r, fs) = ((r', fs'), e)"
  obtains
    (core_failed) x where
      "retrieve_core tgt nm (local_core_filename nm opts) (r, fs) = ((r', fs'), Some x)"
      "e = Some x"
  | (trace_failed) r1 fs1 x where
      "retrieve_core tgt nm (local_core_filename nm opts) (r, fs) = ((r1, fs1), None)"
      "retrieve_trace tgt (target_trace_filename nm opts) (r1, fs1) = ((r', fs'), Some x)"
      "e = Some x"
  | (magic_reached) r1 fs1 r2 fs2 where
      "retrieve_core tgt nm (local_core_filename nm opts) (r, fs) = ((r1, fs1), None)"
      "retrieve_trace tgt (target_trace_filename nm opts) (r1, fs1) = ((r2, fs2), None)"
      "retrieve_magic tgt (target_magic_filename nm opts) (r2, fs2) = ((r', fs'), e)"
proof -
  obtain r1 fs1 e1 where
    c: "retrieve_core tgt nm (local_core_filename nm opts) (r, fs) = ((r1, fs1), e1)"
    by (metis surj_pair)
  obtain r2 fs2 e2 where
    t: "retrieve_trace tgt (target_trace_filename nm opts) (r1, fs1) = ((r2, fs2), e2)"
    by (metis surj_pair)
  show thesis
  proof (cases e1)
    case (Some x)
    with assms c have "r' = r1 \<and> fs' = fs1 \<and> e = Some x"
      by (simp add: retrieve_all_def and_then_def)
    with c Some core_failed show thesis by simp
  next
    case None
    note n1 = this
    show thesis
    proof (cases e2)
      case (Some x)
      with assms c t n1 have "r' = r2 \<and> fs' = fs2 \<and> e = Some x"
        by (simp add: retrieve_all_def and_then_def)
      with c t n1 Some trace_failed show thesis by simp
    next
      case None
      with assms c t n1
      have "retrieve_magic tgt (target_magic_filename nm opts) (r2, fs2) = ((r', fs'), e)"
        by (simp add: retrieve_all_def and_then_def)
      with c t n1 None magic_reached show thesis by simp
    qed
  qed
qed

lemma retrieve_all_keeps:
  assumes "retrieve_all tgt nm opts (r, fs) = ((r', fs'), e)"
  shows "returncode r' = returncode r \<and> signal r' = signal r \<and> crashed r' = crashed r
     \<and> timed_out r' = timed_out r \<and> process r' = process r"
  using assms
proof (cases rule: retrieve_all_cases)
  case (core_failed x)
  from retrieve_core_keeps [OF core_failed(1)] show ?thesis by simp
next
  case (trace_failed r1 fs1 x)
  from retrieve_core_keeps [OF trace_failed(1)] retrieve_trace_keeps [OF trace_failed(2)]
  show ?thesis by simp
next
  case (magic_reached r1 fs1 r2 fs2)
  from retrieve_core_keeps [OF magic_reached(1)] retrieve_trace_keeps [OF magic_reached(2)]
    retrieve_magic_keeps [OF magic_reached(3)]
  show ?thesis by simp
qed

text \<open>Either the caller's body raised something other than a timeout, or the steps ran.\<close>

lemma fire_context_cases:
  assumes "fire_context tgt nm opts body fs = ((r, fs'), e)"
  obtains
    (raised) x where
      "snd (body (started tgt nm opts)) = Some x" "x \<noteq> TimeoutExpired"
      "r = new_TraceResults\<lparr>process := Some (fst (body (started tgt nm opts)))\<rparr>"
      "fs' = fs" "e = Some x"
  | (ran)
      "snd (body (started tgt nm opts)) = None
       \<or> snd (body (started tgt nm opts)) = Some TimeoutExpired"
      "retrieve_all tgt nm opts
         (classify_exit (new_TraceResults\<lparr>process :=
              Some ((fst (body (started tgt nm opts)))\<lparr>proc_returncode := proc_exit tgt\<rparr>),
            timed_out := Some (snd (body (started tgt nm opts)) = Some TimeoutExpired)\<rparr>), fs)
       = ((r, fs'), e)"
  using assms
  by (cases "body (started tgt nm opts)")
     (auto simp: fire_context_def Let_def split: if_splits)

lemma classify_exit_keeps:
  "trace (classify_exit r) = trace r" "crash_address (classify_exit r) = crash_address r"
  "base_address (classify_exit r) = base_address r" "timed_out (classify_exit r) = timed_out r"
  "magic_contents (classify_exit r) = magic_contents r" "core_path (classify_exit r) = core_path r"
  "process (classify_exit r) = process r"
  by (simp_all add: classify_exit_def Let_def)

lemma classify_exit_timed_out:
  "timed_out r = Some True \<Longrightarrow> classify_exit r = r"
  by (simp add: classify_exit_def)

lemma truthy_names:
  "truthy (target_trace_filename nm opts) = record_trace opts"
  "truthy (target_magic_filename nm opts) = record_magic opts"
  "truthy (local_core_filename nm opts) = save_core opts"
  by (simp_all add: truthy_def target_trace_filename_def target_magic_filename_def
        local_core_filename_def)

lemma retrieve_core_skip: "\<not> truthy f \<Longrightarrow> retrieve_core tgt nm f st = (st, None)"
  by (simp add: retrieve_core_def)

lemma retrieve_magic_skip: "\<not> truthy f \<Longrightarrow> retrieve_magic tgt f st = (st, None)"
  by (simp add: retrieve_magic_def)

lemma retrieve_trace_fields:
  assumes "retrieve_trace tgt f (r, fs) = ((r', fs'), e)"
  shows "\<not> truthy f \<longrightarrow> r' = r \<and> e = None"
    and "truthy f \<and> e = None \<longrightarrow> trace r' \<noteq> None \<and> base_address r' \<noteq> None"
    and "crashed r \<noteq> Some True \<longrightarrow> crash_address r' = crash_address r"
    and "trace r = None \<and> crashed r = Some True \<longrightarrow>
           (\<forall>tr. trace r' = Some tr \<longrightarrow>
              (tr \<noteq> [] \<longrightarrow> crash_address r' = Some (last tr))
            \<and> (tr = [] \<longrightarrow> e = Some IndexError))"
  using assms
  by (auto simp: retrieve_trace_def Let_def index_last_def
           split: if_splits sum.splits prod.splits)

text \<open>The status fields of a session in which the caller's body raised at most a timeout.\<close>

lemma session_status:
  assumes "fire_context tgt nm opts body fs = ((r, fs'), e)"
    and "snd (body (started tgt nm opts)) = None
         \<or> snd (body (started tgt nm opts)) = Some TimeoutExpired"
  shows "timed_out r = Some (snd (body (started tgt nm opts)) = Some TimeoutExpired)"
    and "snd (body (started tgt nm opts)) = None \<Longrightarrow> returncode r = proc_exit tgt"
    and "snd (body (started tgt nm opts)) = None \<Longrightarrow>
           crashed r = (if proc_exit tgt = Some 139 \<or> proc_exit tgt = Some (- 11)
                        then Some True else None)"
    and "map_option proc_stdin (process r)
           = Some (proc_stdin (fst (body (started tgt nm opts))))"
proof -
  let ?r0 = "new_TraceResults\<lparr>process :=
              Some ((fst (body (started tgt nm opts)))\<lparr>proc_returncode := proc_exit tgt\<rparr>),
            timed_out := Some (snd (body (started tgt nm opts)) = Some TimeoutExpired)\<rparr>"
  from assms have "retrieve_all tgt nm opts (classify_exit ?r0, fs) = ((r, fs'), e)"
    by (cases rule: fire_context_cases) auto
  note k = retrieve_all_keeps [OF this]
  from k show "timed_out r = Some (snd (body (started tgt nm opts)) = Some TimeoutExpired)"
    by (simp add: classify_exit_keeps)
  from k show "map_option proc_stdin (process r)
           = Some (proc_stdin (fst (body (started tgt nm opts))))"
    by (simp add: classify_exit_keeps)
  from k show "returncode r = proc_exit tgt"
    if "snd (body (started tgt nm opts)) = None"
    using that by (simp add: classify_exit_def Let_def new_TraceResults_def)
  from k show "crashed r = (if proc_exit tgt = Some 139 \<or> proc_exit tgt = Some (- 11)
                        then Some True else None)"
    if "snd (body (started tgt nm opts)) = None"
    using that
    by (auto simp: classify_exit_def Let_def new_TraceResults_def py_in_def py_eq_def
          py_of_returncode_def split: option.splits)
qed

section \<open>The trace patterns\<close>

lemma rx_sound:
  "rx_match rs s caps = Some m \<Longrightarrow>
     \<exists>vs rest. m = rev (zip (rx_groups rs) vs) @ caps \<and> length vs = length (rx_groups rs)
                \<and> s = rx_text rs vs @ rest"
  "rx_star g rs s k caps = Some m \<Longrightarrow>
     \<exists>v vs rest. m = rev (zip (rx_groups rs) vs) @ (g, v) # caps
                  \<and> length vs = length (rx_groups rs) \<and> s = v @ rx_text rs vs @ rest"
proof (induction rs s caps and g rs s k caps arbitrary: m and m rule: rx_match_rx_star.induct)
  case (1 s caps)
  then show ?case by simp
next
  case (2 l rs s caps)
  from "2.prems" have sw: "startswith s l" and m: "rx_match rs (drop (length l) s) caps = Some m"
    by (auto split: if_splits)
  from "2.IH" [OF sw m] obtain vs rest where
    "m = rev (zip (rx_groups rs) vs) @ caps" "length vs = length (rx_groups rs)"
    "drop (length l) s = rx_text rs vs @ rest" by blast
  moreover from sw have "s = l @ drop (length l) s"
    by (metis append_take_drop_id startswith_def)
  ultimately show ?case by (metis append.assoc rx_groups.simps(2) rx_text.simps(2))
next
  case (3 g rs s caps)
  from "3.prems" have "rx_star g rs s (length (takeWhile (\<lambda>c. c \<noteq> CHR 0x0A) s)) caps = Some m"
    by simp
  from "3.IH" [OF this] obtain v vs rest where
    h: "m = rev (zip (rx_groups rs) vs) @ (g, v) # caps" "length vs = length (rx_groups rs)"
    "s = v @ rx_text rs vs @ rest" by blast
  show ?case
    by (rule exI [of _ "v # vs"], rule exI [of _ rest]) (use h in simp)
next
  case (4 g rs s k caps)
  show ?case
  proof (cases "rx_match rs (drop k s) ((g, take k s) # caps)")
    case (Some m')
    with "4.prems" have mm: "m' = m" by (simp add: rx_star.simps)
    from "4.IH"(1) [OF Some [unfolded mm]] obtain vs rest where
      h: "m = rev (zip (rx_groups rs) vs) @ (g, take k s) # caps"
      "length vs = length (rx_groups rs)" "drop k s = rx_text rs vs @ rest" by blast
    have "s = take k s @ rx_text rs vs @ rest"
      using h(3) by (metis append_take_drop_id)
    with h show ?thesis by blast
  next
    case None
    with "4.prems" obtain j where k: "k = Suc j" and r: "rx_star g rs s j caps = Some m"
      by (cases k) (auto simp: rx_star.simps)
    from "4.IH"(2) [OF None k r] show ?thesis .
  qed
qed

lemma rx_star_hit:
  "j \<le> k \<Longrightarrow> rx_match rs (drop j s) ((g, take j s) # caps) \<noteq> None
     \<Longrightarrow> rx_star g rs s k caps \<noteq> None"
proof (induction k)
  case 0
  then show ?case by (auto simp: rx_star.simps)
next
  case (Suc k)
  show ?case
  proof (cases "j = Suc k")
    case True
    with Suc.prems show ?thesis by (auto simp: rx_star.simps)
  next
    case False
    with Suc.prems have "j \<le> k" by simp
    from Suc.IH [OF this Suc.prems(2)] show ?thesis
      by (auto simp: rx_star.simps [of g rs s "Suc k"] split: option.splits)
  qed
qed

lemma takeWhile_prefix_length:
  "\<forall>x \<in> set v. P x \<Longrightarrow> length v \<le> length (takeWhile P (v @ w))"
  by (induction v) auto

lemma rx_complete:
  "s = rx_text rs vs @ rest \<Longrightarrow> length vs = length (rx_groups rs)
     \<Longrightarrow> \<forall>v \<in> set vs. CHR 0x0A \<notin> set v \<Longrightarrow> rx_match rs s caps \<noteq> None"
proof (induction rs arbitrary: s vs caps)
  case Nil
  then show ?case by simp
next
  case (Cons a rs)
  show ?case
  proof (cases a)
    case (Lit l)
    with Cons.prems have s: "s = l @ rx_text rs vs @ rest" "length vs = length (rx_groups rs)"
      by simp_all
    from Cons.IH [OF _ s(2) Cons.prems(3), of "rx_text rs vs @ rest" caps] s(1) Lit
    show ?thesis by (simp add: startswith_def)
  next
    case (DotStar g)
    with Cons.prems obtain v ws where vs: "vs = v # ws"
      by (cases vs) auto
    with Cons.prems DotStar have s: "s = v @ rx_text rs ws @ rest"
      "length ws = length (rx_groups rs)" "\<forall>v \<in> set ws. CHR 0x0A \<notin> set v"
      "CHR 0x0A \<notin> set v"
      by simp_all
    have le: "length v \<le> length (takeWhile (\<lambda>c. c \<noteq> CHR 0x0A) s)"
      unfolding s(1) using s(4) by (intro takeWhile_prefix_length) auto
    have "rx_match rs (drop (length v) s) ((g, take (length v) s) # caps) \<noteq> None"
      using Cons.IH [OF _ s(2) s(3), of "rx_text rs ws @ rest"] s(1) by simp
    from rx_star_hit [OF le this] DotStar show ?thesis by simp
  qed
qed

lemma split_first:
  "c \<notin> set a \<Longrightarrow> c \<notin> set a' \<Longrightarrow> a @ c # b = a' @ c # b' \<Longrightarrow> a = a' \<and> b = b'"
proof (induction a arbitrary: a')
  case Nil
  then show ?case by (cases a') auto
next
  case (Cons x a)
  then show ?case by (cases a') auto
qed

lemma split_last:
  assumes "c \<notin> set b" "c \<notin> set b'" "a @ c # b = a' @ c # b'"
  shows "a = a' \<and> b = b'"
proof -
  from assms(3) have "rev b @ c # rev a = rev b' @ c # rev a'"
    by (metis rev.simps(2) rev_append append.assoc append_Cons append_Nil)
  from split_first [OF _ _ this] assms(1,2) show ?thesis by simp
qed

lemma count_zero: "count_list xs c = 0 \<longleftrightarrow> c \<notin> set xs"
  by (induction xs) auto

lemma match_addr_old:
  assumes p: "CHR '']'' \<notin> set p" "CHR ''['' \<notin> set p" "CHR 0x0A \<notin> set p"
    and h: "CHR '']'' \<notin> set h" "CHR ''['' \<notin> set h" "CHR 0x0A \<notin> set h"
    and x: "CHR '']'' \<notin> set sfx" "CHR 0x0A \<notin> set sfx"
  shows "match_addr trace_old_re (''Trace '' @ p @ '' ['' @ h @ '']'' @ sfx) = Inr h"
proof -
  let ?s = "''Trace '' @ p @ '' ['' @ h @ '']'' @ sfx"
  have "rx_match trace_old_re ?s [] \<noteq> None"
    by (rule rx_complete [where vs = "[p, h, sfx]" and rest = "[]"])
       (use p h x in \<open>simp_all add: trace_old_re_def\<close>)
  then obtain m where m: "rx_match trace_old_re ?s [] = Some m" by blast
  from rx_sound(1) [OF m] obtain vs rest where
    v: "m = rev (zip (rx_groups trace_old_re) vs) @ []"
       "length vs = length (rx_groups trace_old_re)" "?s = rx_text trace_old_re vs @ rest"
    by blast
  from v(2) obtain g1 ga g0 where vs: "vs = [g1, ga, g0]"
    by (auto simp: trace_old_re_def numeral_3_eq_3 length_Suc_conv)
  have eq: "''Trace '' @ p @ '' ['' @ h @ '']'' @ sfx
              = ''Trace '' @ g1 @ '' ['' @ ga @ '']'' @ g0 @ rest"
    using v(3) vs by (simp add: trace_old_re_def)
  have addr: "map_of m ''addr'' = Some ga"
    using v(1) vs by (simp add: trace_old_re_def)
  have "count_list (p @ '' ['' @ h @ '']'' @ sfx) (CHR '']'')
          = count_list (g1 @ '' ['' @ ga @ '']'' @ g0 @ rest) (CHR '']'')"
    using eq by simp
  then have c1: "CHR '']'' \<notin> set g1" "CHR '']'' \<notin> set ga"
    using p h x by (simp_all add: count_zero [symmetric])
  have "(p @ '' ['' @ h) @ CHR '']'' # sfx = (g1 @ '' ['' @ ga) @ CHR '']'' # (g0 @ rest)"
    using eq by simp
  from split_first [OF _ _ this] p h c1
  have eq2: "p @ '' ['' @ h = g1 @ '' ['' @ ga" by simp
  then have "count_list (p @ '' ['' @ h) (CHR ''['') = count_list (g1 @ '' ['' @ ga) (CHR ''['')"
    by simp
  then have c2: "CHR ''['' \<notin> set g1" "CHR ''['' \<notin> set ga"
    using p h by (simp_all add: count_zero [symmetric])
  have "(p @ '' '') @ CHR ''['' # h = (g1 @ '' '') @ CHR ''['' # ga"
    using eq2 by simp
  from split_first [OF _ _ this] p c2 have "h = ga" by simp
  with m addr show ?thesis by (simp add: match_addr_def)
qed

lemma match_addr_new:
  assumes p: "CHR '']'' \<notin> set p" "CHR ''/'' \<notin> set p" "CHR 0x0A \<notin> set p"
    and c: "CHR '']'' \<notin> set cs" "CHR ''/'' \<notin> set cs" "CHR 0x0A \<notin> set cs"
    and h: "CHR '']'' \<notin> set h" "CHR ''/'' \<notin> set h" "CHR 0x0A \<notin> set h"
    and f: "CHR '']'' \<notin> set fl" "CHR ''/'' \<notin> set fl" "CHR 0x0A \<notin> set fl"
    and x: "CHR '']'' \<notin> set sfx" "CHR 0x0A \<notin> set sfx"
  shows "match_addr trace_new_re
           (''Trace '' @ p @ '' ['' @ cs @ ''/'' @ h @ ''/'' @ fl @ '']'' @ sfx) = Inr h"
proof -
  let ?s = "''Trace '' @ p @ '' ['' @ cs @ ''/'' @ h @ ''/'' @ fl @ '']'' @ sfx"
  have "rx_match trace_new_re ?s [] \<noteq> None"
    by (rule rx_complete [where vs = "[p, cs, h, fl, sfx]" and rest = "[]"])
       (use p c h f x in \<open>simp_all add: trace_new_re_def\<close>)
  then obtain m where m: "rx_match trace_new_re ?s [] = Some m" by blast
  from rx_sound(1) [OF m] obtain vs rest where
    v: "m = rev (zip (rx_groups trace_new_re) vs) @ []"
       "length vs = length (rx_groups trace_new_re)" "?s = rx_text trace_new_re vs @ rest"
    by blast
  from v(2) obtain g1 gc ga gf g0 where vs: "vs = [g1, gc, ga, gf, g0]"
    by (auto simp: trace_new_re_def eval_nat_numeral length_Suc_conv)
  have eq: "p @ '' ['' @ cs @ ''/'' @ h @ ''/'' @ fl @ '']'' @ sfx
              = g1 @ '' ['' @ gc @ ''/'' @ ga @ ''/'' @ gf @ '']'' @ g0 @ rest"
    using v(3) vs by (simp add: trace_new_re_def)
  have addr: "map_of m ''addr'' = Some ga"
    using v(1) vs by (simp add: trace_new_re_def)
  have "count_list (p @ '' ['' @ cs @ ''/'' @ h @ ''/'' @ fl @ '']'' @ sfx) (CHR '']'')
          = count_list (g1 @ '' ['' @ gc @ ''/'' @ ga @ ''/'' @ gf @ '']'' @ g0 @ rest) (CHR '']'')"
    using eq by simp
  then have c1: "CHR '']'' \<notin> set g1" "CHR '']'' \<notin> set gc" "CHR '']'' \<notin> set ga"
    "CHR '']'' \<notin> set gf"
    using p c h f x by (simp_all add: count_zero [symmetric])
  have "(p @ '' ['' @ cs @ ''/'' @ h @ ''/'' @ fl) @ CHR '']'' # sfx
          = (g1 @ '' ['' @ gc @ ''/'' @ ga @ ''/'' @ gf) @ CHR '']'' # (g0 @ rest)"
    using eq by simp
  from split_first [OF _ _ this] p c h f c1
  have eq2: "p @ '' ['' @ cs @ ''/'' @ h @ ''/'' @ fl = g1 @ '' ['' @ gc @ ''/'' @ ga @ ''/'' @ gf"
    by simp
  then have "count_list (p @ '' ['' @ cs @ ''/'' @ h @ ''/'' @ fl) (CHR ''/'')
               = count_list (g1 @ '' ['' @ gc @ ''/'' @ ga @ ''/'' @ gf) (CHR ''/'')"
    by simp
  then have c2: "CHR ''/'' \<notin> set g1" "CHR ''/'' \<notin> set gc" "CHR ''/'' \<notin> set ga"
    "CHR ''/'' \<notin> set gf"
    using p c h f by (simp_all add: count_zero [symmetric])
  have "(p @ '' ['' @ cs @ ''/'' @ h) @ CHR ''/'' # fl
          = (g1 @ '' ['' @ gc @ ''/'' @ ga) @ CHR ''/'' # gf"
    using eq2 by simp
  from split_last [OF _ _ this] f c2
  have eq3: "p @ '' ['' @ cs @ ''/'' @ h = g1 @ '' ['' @ gc @ ''/'' @ ga" by simp
  then have "(p @ '' ['' @ cs) @ CHR ''/'' # h = (g1 @ '' ['' @ gc) @ CHR ''/'' # ga"
    by simp
  from split_last [OF _ _ this] h c2 have "h = ga" by simp
  with m addr show ?thesis by (simp add: match_addr_def)
qed

section \<open>Hexadecimal fields and the load-base line\<close>

lemma hex_digit_chars:
  assumes "hex_digit_val c \<noteq> None"
  shows "c \<noteq> CHR ''_''" "c \<noteq> CHR ''x''" "c \<noteq> CHR ''X''" "c \<noteq> CHR ''+''" "c \<noteq> CHR ''-''"
    "c \<noteq> CHR '']''" "c \<noteq> CHR ''[''" "c \<noteq> CHR ''/''" "c \<noteq> CHR 0x0A" "c \<noteq> CHR 0x0D"
    "\<not> is_space c"
  using assms by (auto simp: hex_digit_val_def is_space_def)

lemma is_hex_chars:
  assumes "is_hex h"
  shows "CHR '']'' \<notin> set h" "CHR ''['' \<notin> set h" "CHR ''/'' \<notin> set h" "CHR 0x0A \<notin> set h"
    "CHR 0x0D \<notin> set h" "\<forall>c \<in> set h. \<not> is_space c"
proof -
  have a: "\<forall>c \<in> set h. hex_digit_val c \<noteq> None"
    using assms by (simp add: is_hex_def list_all_iff)
  show "CHR '']'' \<notin> set h" using a hex_digit_chars(6) by blast
  show "CHR ''['' \<notin> set h" using a hex_digit_chars(7) by blast
  show "CHR ''/'' \<notin> set h" using a hex_digit_chars(8) by blast
  show "CHR 0x0A \<notin> set h" using a hex_digit_chars(9) by blast
  show "CHR 0x0D \<notin> set h" using a hex_digit_chars(10) by blast
  show "\<forall>c \<in> set h. \<not> is_space c" using a hex_digit_chars(11) by blast
qed

lemma hex_scan_digits:
  "list_all (\<lambda>c. hex_digit_val c \<noteq> None) h \<Longrightarrow>
     hex_scan acc seen False h
       = Some (foldl (\<lambda>a c. 16 * a + int (the (hex_digit_val c))) acc h, seen \<or> h \<noteq> [], [])"
proof (induction h arbitrary: acc seen)
  case Nil
  then show ?case by simp
next
  case (Cons c cs)
  then obtain d where d: "hex_digit_val c = Some d" by auto
  with Cons hex_digit_chars(1) [of c] show ?case by simp
qed

lemma py_int16_hex:
  assumes "is_hex h"
  shows "py_int16 h = Some (hex_value h)"
proof -
  from assms obtain c cs where h: "h = c # cs" and c: "hex_digit_val c \<noteq> None"
    and all: "list_all (\<lambda>c. hex_digit_val c \<noteq> None) h"
    by (cases h) (auto simp: is_hex_def)
  have s1: "dropWhile is_space h = h"
    using h hex_digit_chars(11) [OF c] by simp
  have nx: "\<not> startswith h ''0x''" "\<not> startswith h ''0X''"
  proof -
    have "cs \<noteq> [] \<Longrightarrow> hex_digit_val (hd cs) \<noteq> None"
      using all h by (cases cs) auto
    then show "\<not> startswith h ''0x''" "\<not> startswith h ''0X''"
      using h hex_digit_chars(2,3) [of "hd cs"] by (cases cs; auto simp: startswith_def)+
  qed
  have nsign: "\<not> startswith h ''-''" "\<not> startswith h ''+''" "\<not> startswith h ''_''"
    using h hex_digit_chars(1,4,5) [OF c] by (auto simp: startswith_def)
  show ?thesis
    using s1 nx nsign hex_scan_digits [OF all, of 0 False] h
    by (simp add: py_int16_def Let_def hex_value_def)
qed

lemma py_int16_0x_hex:
  assumes "is_hex h"
  shows "py_int16 (''0x'' @ h) = Some (hex_value h)"
proof -
  from assms obtain c cs where h: "h = c # cs" and c: "hex_digit_val c \<noteq> None"
    and all: "list_all (\<lambda>c. hex_digit_val c \<noteq> None) h"
    by (cases h) (auto simp: is_hex_def)
  have nus: "\<not> startswith h ''_''"
    using h hex_digit_chars(1) [OF c] by (auto simp: startswith_def)
  show ?thesis
    using nus hex_scan_digits [OF all, of 0 False] h
    by (simp add: py_int16_def Let_def hex_value_def startswith_def is_space_def)
qed

lemma split_from_word:
  "\<forall>c \<in> set w. \<not> is_space c \<Longrightarrow> split_from cur (w @ rest) = split_from (cur @ w) rest"
  by (induction w arbitrary: cur) auto

lemma split_ws_start_code:
  assumes "is_hex h"
  shows "split_ws (start_code_line h) = [''start_code'', ''0x'' @ h]"
proof -
  have a: "split_from [] (''start_code'' @ (CHR '' '' # ''0x'' @ h))
             = split_from ''start_code'' (CHR '' '' # ''0x'' @ h)"
    using split_from_word [of "''start_code''" "[]"] by (simp add: is_space_def)
  have b: "split_from [] ((''0x'' @ h) @ []) = split_from (''0x'' @ h) []"
    using split_from_word [of "''0x'' @ h" "[]" "[]"] is_hex_chars(6) [OF assms]
    by (simp add: is_space_def)
  from a b show ?thesis
    by (simp add: split_ws_def start_code_line_def is_space_def)
qed

lemma find_base_start_code:
  assumes "is_hex h"
  shows "find_base (start_code_line h # ls) = Inr (hex_value h, ls)"
  using split_ws_start_code [OF assms] py_int16_0x_hex [OF assms]
  by (simp add: index1_def) (simp add: start_code_line_def startswith_def)

section \<open>Parsing a well-formed trace file\<close>

lemma splitlines_from_line:
  "one_line l \<Longrightarrow> splitlines_from cur (l @ CHR 0x0A # rest) = (cur @ l) # splitlines_from [] rest"
  by (induction l arbitrary: cur) (auto simp: one_line_def)

lemma splitlines_lf_lines:
  "list_all one_line ls \<Longrightarrow> splitlines (lf_lines ls) = ls"
proof (induction ls)
  case Nil
  then show ?case by (simp add: splitlines_def lf_lines_def)
next
  case (Cons l ls)
  then have "splitlines_from [] (lf_lines ls) = ls" by (simp add: splitlines_def)
  with Cons.prems splitlines_from_line [of l "[]" "lf_lines ls"] show ?case
    by (simp add: splitlines_def lf_lines_def)
qed

lemma one_line_start_code: "is_hex h \<Longrightarrow> one_line (start_code_line h)"
  using is_hex_chars(4,5) [of h] by (simp add: one_line_def start_code_line_def)

lemma one_line_entry: "wf_entry cgc t \<Longrightarrow> one_line (entry_line cgc t)"
  using is_hex_chars(4,5) [of "te_addr t"]
  by (auto simp: wf_entry_def one_line_def entry_line_def split: if_splits)

lemma entry_starts: "startswith (entry_line cgc t) ''Trace ''"
  by (simp add: entry_line_def startswith_def)

lemma match_addr_entry:
  assumes "wf_entry cgc t"
  shows "match_addr (if cgc then trace_old_re else trace_new_re) (entry_line cgc t)
           = Inr (te_addr t)"
proof (cases cgc)
  case True
  with assms is_hex_chars [of "te_addr t"] match_addr_old [of "te_pc t" "te_addr t" "te_sym t"]
  show ?thesis by (simp add: wf_entry_def one_line_def entry_line_def)
next
  case False
  with assms is_hex_chars [of "te_addr t"]
    match_addr_new [of "te_pc t" "te_cs t" "te_addr t" "te_flags t" "te_sym t"]
  show ?thesis by (simp add: wf_entry_def one_line_def entry_line_def)
qed

lemma parse_entries_wf:
  "list_all (wf_entry cgc) ts \<Longrightarrow>
     parse_entries (if cgc then trace_old_re else trace_new_re) (map (entry_line cgc) ts)
       = Inr (map (\<lambda>t. hex_value (te_addr t)) ts)"
proof (induction ts)
  case Nil
  then show ?case by simp
next
  case (Cons t ts)
  then have wf: "wf_entry cgc t" and rest: "list_all (wf_entry cgc) ts" by simp_all
  from wf have hx: "is_hex (te_addr t)" by (simp add: wf_entry_def)
  from Cons.IH [OF rest] match_addr_entry [OF wf] py_int16_hex [OF hx] entry_starts [of cgc t]
  show ?case by simp
qed

text \<open>The trace step on a well-formed trace file.\<close>

lemma retrieve_trace_wf:
  assumes "target_files tgt f = Some (trace_file (target_os tgt = ''cgc'') h0 ts)"
    and "f \<noteq> []" and "is_hex h0" and "list_all (wf_entry (target_os tgt = ''cgc'')) ts"
  shows "retrieve_trace tgt (Some f) (r, fs)
           = (if crashed r = Some True then
                (if ts = [] then
                   ((r\<lparr>base_address := Some (hex_value h0), trace := Some []\<rparr>, fs),
                    Some IndexError)
                 else
                   ((r\<lparr>base_address := Some (hex_value h0),
                        trace := Some (map (\<lambda>t. hex_value (te_addr t)) ts),
                        crash_address := Some (hex_value (te_addr (last ts)))\<rparr>, fs), None))
              else
                ((r\<lparr>base_address := Some (hex_value h0),
                     trace := Some (map (\<lambda>t. hex_value (te_addr t)) ts)\<rparr>, fs), None))"
proof -
  let ?cgc = "target_os tgt = ''cgc''"
  let ?ls = "start_code_line h0 # map (entry_line ?cgc) ts"
  have "list_all one_line ?ls"
    using assms(3,4) one_line_start_code one_line_entry
    by (auto simp: list_all_iff)
  then have sl: "splitlines (lf_lines ?ls) = ?ls" by (rule splitlines_lf_lines)
  have fb: "find_base ?ls = Inr (hex_value h0, map (entry_line ?cgc) ts)"
    by (rule find_base_start_code [OF assms(3)])
  have pe: "parse_entries (if ?cgc then trace_old_re else trace_new_re) (map (entry_line ?cgc) ts)
              = Inr (map (\<lambda>t. hex_value (te_addr t)) ts)"
    by (rule parse_entries_wf [OF assms(4)])
  show ?thesis
    using assms(1,2) sl fb pe
    by (simp add: retrieve_trace_def retrieve_contents_def truthy_def index_last_def Let_def
          last_map trace_file_def)
qed

text \<open>A session that records a well-formed trace and saves no core file.\<close>

lemma traced_session:
  assumes fc: "fire_context tgt nm opts body fs = ((r, fs'), e)"
    and ok: "snd (body (started tgt nm opts)) = None
             \<or> snd (body (started tgt nm opts)) = Some TimeoutExpired"
    and opts: "record_trace opts" "\<not> save_core opts"
    and tf: "target_files tgt (tmp_prefix nm @ ''.trace'')
                 = Some (trace_file (target_os tgt = ''cgc'') h0 ts)"
    and wf: "is_hex h0" "list_all (wf_entry (target_os tgt = ''cgc'')) ts"
  shows "base_address r = Some (hex_value h0)"
    and "trace r = Some (map (\<lambda>t. hex_value (te_addr t)) ts)"
    and "crashed r = Some True \<Longrightarrow> ts \<noteq> [] \<Longrightarrow>
           crash_address r = Some (hex_value (te_addr (last ts)))"
    and "crashed r \<noteq> Some True \<or> ts \<noteq> [] \<Longrightarrow> \<not> record_magic opts \<Longrightarrow> e = None"
proof -
  let ?r0 = "classify_exit (new_TraceResults\<lparr>process :=
              Some ((fst (body (started tgt nm opts)))\<lparr>proc_returncode := proc_exit tgt\<rparr>),
            timed_out := Some (snd (body (started tgt nm opts)) = Some TimeoutExpired)\<rparr>)"
  from fc ok have ra: "retrieve_all tgt nm opts (?r0, fs) = ((r, fs'), e)"
    by (cases rule: fire_context_cases) auto
  have core: "retrieve_core tgt nm (local_core_filename nm opts) (?r0, fs) = ((?r0, fs), None)"
    using opts(2) by (simp add: retrieve_core_skip truthy_names)
  have tn: "target_trace_filename nm opts = Some (tmp_prefix nm @ ''.trace'')"
    using opts(1) by (simp add: target_trace_filename_def)
  note tr = retrieve_trace_wf [OF tf _ wf, of ?r0 fs, folded tn]
  have cr: "crashed r = crashed ?r0"
    using retrieve_all_keeps [OF ra] by simp
  have all: "base_address r = Some (hex_value h0)
      \<and> trace r = Some (map (\<lambda>t. hex_value (te_addr t)) ts)
      \<and> (crashed r = Some True \<and> ts \<noteq> [] \<longrightarrow>
           crash_address r = Some (hex_value (te_addr (last ts))))
      \<and> ((crashed r \<noteq> Some True \<or> ts \<noteq> []) \<and> \<not> record_magic opts \<longrightarrow> e = None)"
    using ra
  proof (cases rule: retrieve_all_cases)
    case (core_failed x)
    with core show ?thesis by simp
  next
    case (trace_failed r1 fs1 x)
    with core tr cr show ?thesis by (auto split: if_splits)
  next
    case (magic_reached r1 fs1 r2 fs2)
    note km = retrieve_magic_keeps [OF magic_reached(3)]
    have "\<not> record_magic opts \<longrightarrow> e = None"
      using magic_reached(3) by (auto simp: retrieve_magic_skip truthy_names)
    with magic_reached(1,2) core tr cr km show ?thesis by (auto split: if_splits)
  qed
  from all show "base_address r = Some (hex_value h0)" by simp
  from all show "trace r = Some (map (\<lambda>t. hex_value (te_addr t)) ts)" by simp
  from all show "crash_address r = Some (hex_value (te_addr (last ts)))"
    if "crashed r = Some True" "ts \<noteq> []" using that by simp
  from all show "e = None"
    if "crashed r \<noteq> Some True \<or> ts \<noteq> []" "\<not> record_magic opts" using that by simp
qed

text \<open>The example traces are well formed.\<close>

lemma hex_examples:
  "is_hex ''400000''" "hex_value ''400000'' = 0x400000"
  "is_hex ''8048000''" "hex_value ''8048000'' = 0x8048000"
  by (simp_all add: is_hex_def hex_value_def hex_digit_val_def)

lemma ten_blocks_wf: "list_all (wf_entry False) ten_blocks"
  by (simp add: ten_blocks_def block_def wf_entry_def is_hex_def one_line_def hex_digit_val_def)

lemma ten_blocks_addrs:
  "map (\<lambda>t. hex_value (te_addr t)) ten_blocks
     = [0x401000, 0x401020, 0x401036, 0x401040, 0x401056, 0x401020, 0x401036, 0x40105e,
        0x401070, 0x401000]"
  by (simp add: ten_blocks_def block_def hex_value_def hex_digit_val_def)

lemma two_blocks_wf: "list_all (wf_entry True) two_blocks"
  by (simp add: two_blocks_def block_def wf_entry_def is_hex_def one_line_def hex_digit_val_def)

lemma two_blocks_addrs:
  "map (\<lambda>t. hex_value (te_addr t)) two_blocks = [0x8048000, 0x804801c]"
  by (simp add: two_blocks_def block_def hex_value_def hex_digit_val_def)

lemma linux_trace_target_simps:
  "target_os (linux_trace_target rc) = ''linux''"
  "proc_exit (linux_trace_target rc) = rc"
  "target_files (linux_trace_target rc) ''/tmp/tracer-b.trace''
     = Some (trace_file False ''400000'' ten_blocks)"
  by (simp_all add: linux_trace_target_def example_target_def)

lemma cgc_trace_target_simps:
  "target_os (cgc_trace_target rc) = ''cgc''"
  "proc_exit (cgc_trace_target rc) = rc"
  "target_files (cgc_trace_target rc) ''/tmp/tracer-b.trace''
     = Some (trace_file True ''8048000'' two_blocks)"
  by (simp_all add: cgc_trace_target_def example_target_def)

lemma example_simps:
  "tmp_prefix example_names = ''/tmp/tracer-b''" "tmpdir example_names = ''/tmp/tracer_a''"
  "local_tmpdir example_names = ''/tmp/tracer_c''"
  "record_trace default_options" "\<not> record_magic default_options"
  "\<not> save_core default_options"
  "snd (idle_body p) = None" "snd (timeout_body p) = Some TimeoutExpired"
  "fst (idle_body p) = p" "fst (timeout_body p) = p"
  by (simp_all add: example_names_def default_options_def idle_body_def timeout_body_def)

section \<open>The magic page and the core file, step by step\<close>

lemma retrieve_magic_fields:
  assumes "retrieve_magic tgt f (r, fs) = ((r', fs'), e)" and "magic_contents r = None"
    and "truthy f"
  shows "\<forall>m. magic_contents r' = Some m \<longrightarrow>
           target_files tgt (the f) = Some m
           \<and> e = (if length m \<noteq> 4096
                  then Some (ArchrError
                    ''Magic content read from QEMU improper size, should be a page in length'')
                  else None)"
    and "e = None \<longrightarrow> (\<exists>m. magic_contents r' = Some m \<and> length m = 4096)"
  using assms
  by (auto simp: retrieve_magic_def retrieve_contents_def Let_def
           split: if_splits sum.splits prod.splits option.splits)

lemma magic_session_contents:
  "magic_contents (fst (fst (magic_session n))) = Some (replicate n (CHR 0x41))"
  by (simp add: magic_session_def fire_context_def retrieve_all_def and_then_def
        retrieve_core_def retrieve_trace_def retrieve_magic_def retrieve_contents_def
        truthy_def target_trace_filename_def target_magic_filename_def
        local_core_filename_def magic_target_def example_target_def example_names_def
        default_options_def idle_body_def Let_def)

lemma endswith_slash: "endswith d ''/'' \<Longrightarrow> \<exists>d'. d = d' @ ''/''"
  unfolding endswith_def by (metis append_take_drop_id)

lemma takeWhile_until:
  "\<forall>x \<in> set xs. P x \<Longrightarrow> \<not> P y \<Longrightarrow> takeWhile P (xs @ y # ys) = xs"
  by (induction xs) auto

lemma basename_append_slash:
  assumes "CHR ''/'' \<notin> set n"
  shows "basename (d @ ''/'' @ n) = n"
proof -
  have "\<forall>x \<in> set (rev n). x \<noteq> CHR ''/''" using assms by auto
  then have "takeWhile (\<lambda>c. c \<noteq> CHR ''/'') (rev n @ CHR ''/'' # rev d) = rev n"
    by (rule takeWhile_until) simp
  then show ?thesis by (simp add: basename_def)
qed

lemma basename_plain:
  assumes "CHR ''/'' \<notin> set n"
  shows "basename n = n"
proof -
  have "\<forall>x \<in> set (rev n). x \<noteq> CHR ''/''" using assms by auto
  then have tw: "takeWhile (\<lambda>c. c \<noteq> CHR ''/'') (rev n) = rev n"
    by (simp add: takeWhile_eq_all_conv)
  show ?thesis by (simp only: basename_def tw rev_rev_ident)
qed

lemma map_of_snoc_fresh: "k \<notin> fst ` set xs \<Longrightarrow> map_of (xs @ [(k, v)]) k = Some v"
  by (induction xs) auto

lemma basename_path_join:
  assumes "CHR ''/'' \<notin> set n"
  shows "basename (path_join d n) = n"
proof -
  have ns: "\<not> startswith n ''/''"
    using assms by (cases n) (auto simp: startswith_def)
  show ?thesis
  proof (cases "d = []")
    case True
    with ns assms show ?thesis by (simp add: path_join_def basename_plain)
  next
    case False
    show ?thesis
    proof (cases "endswith d ''/''")
      case True
      then obtain d' where "d = d' @ ''/''" using endswith_slash by blast
      with ns True False basename_append_slash [OF assms, of d'] show ?thesis
        by (simp add: path_join_def)
    next
      case False
      with ns \<open>d \<noteq> []\<close> basename_append_slash [OF assms, of d] show ?thesis
        by (simp add: path_join_def)
    qed
  qed
qed

lemma basename_no_slash: "CHR ''/'' \<notin> set (basename p)"
proof -
  have "\<forall>c \<in> set (takeWhile (\<lambda>c. c \<noteq> CHR ''/'') (rev p)). c \<noteq> CHR ''/''"
    by (metis (mono_tags, lifting) set_takeWhileD)
  then show ?thesis by (auto simp: basename_def)
qed

text \<open>The core step on a scratch directory with exactly one core file.\<close>

lemma retrieve_core_one:
  assumes "resolve_glob tgt (path_join (tmpdir nm) ''qemu_*.core'') = [c]"
    and "target_files tgt c = Some b"
    and "is_core_name (basename c)"
    and "local_glob_cores (local_tmpdir nm) fs = []"
    and "\<not> startswith lcf (local_tmpdir nm @ ''/'')" and "lcf \<noteq> []"
  shows "\<exists>fs'. retrieve_core tgt nm (Some lcf) (r, fs) = ((r\<lparr>core_path := Some lcf\<rparr>, fs'), None)
           \<and> map_of fs' lcf = Some b"
proof -
  let ?d = "local_tmpdir nm"
  let ?dst = "path_join ?d (basename c)"
  let ?fs1 = "filter (\<lambda>e. fst e \<noteq> ?dst) fs @ [(?dst, b)]"
  have ri: "retrieve_into tgt c ?d fs = Inr ?fs1"
    using assms(2) by (simp add: retrieve_into_def Let_def)
  have bn: "basename ?dst = basename c"
    by (rule basename_path_join [OF basename_no_slash])
  have old: "filter (\<lambda>p. p = path_join ?d (basename p) \<and> is_core_name (basename p))
               (map fst (filter (\<lambda>e. fst e \<noteq> ?dst) fs)) = []"
  proof -
    have "\<forall>p \<in> set (map fst fs). \<not> (p = path_join ?d (basename p) \<and> is_core_name (basename p))"
      using assms(4) unfolding local_glob_cores_def filter_empty_conv by simp
    then show ?thesis unfolding filter_empty_conv by auto
  qed
  have gl: "local_glob_cores ?d ?fs1 = [?dst]"
    using old bn assms(3) by (simp add: local_glob_cores_def)
  have m1: "map_of ?fs1 ?dst = Some b"
    by (rule map_of_snoc_fresh) auto
  let ?fs2 = "move_file ?dst lcf ?fs1"
  have fs2: "?fs2 = filter (\<lambda>e. fst e \<noteq> ?dst \<and> fst e \<noteq> lcf) ?fs1 @ [(lcf, b)]"
    using m1 by (simp add: move_file_def del: map_of_append)
  have "rmtree ?d ?fs2
          = filter (\<lambda>e. \<not> startswith (fst e) (?d @ ''/''))
              (filter (\<lambda>e. fst e \<noteq> ?dst \<and> fst e \<noteq> lcf) ?fs1) @ [(lcf, b)]"
    unfolding fs2 rmtree_def using assms(5) by simp
  moreover have "map_of (filter (\<lambda>e. \<not> startswith (fst e) (?d @ ''/''))
              (filter (\<lambda>e. fst e \<noteq> ?dst \<and> fst e \<noteq> lcf) ?fs1) @ [(lcf, b)]) lcf = Some b"
    by (rule map_of_snoc_fresh) auto
  ultimately have m2: "map_of (rmtree ?d ?fs2) lcf = Some b"
    by simp
  have "retrieve_core tgt nm (Some lcf) (r, fs)
          = ((r\<lparr>core_path := Some lcf\<rparr>, rmtree ?d ?fs2), None)"
    using assms(1,6) ri gl by (simp add: retrieve_core_def truthy_def Let_def)
  with m2 show ?thesis by blast
qed

lemma retrieve_core_count:
  assumes "length (resolve_glob tgt (path_join (tmpdir nm) ''qemu_*.core'')) \<noteq> 1"
    and "truthy f"
  shows "retrieve_core tgt nm f (r, fs)
           = ((r, fs), Some (ArchrError (''expected 1 core file but found ''
                @ str_nat (length (resolve_glob tgt (path_join (tmpdir nm) ''qemu_*.core''))))))"
  using assms by (simp add: retrieve_core_def Let_def)

section \<open>The command and the test case, step by step\<close>

lemma contains_cgc_linux:
  "contains ''cgc'' (''shellphish-qemu-linux-'' @ a) = contains ''cgc'' a"
  by (simp add: startswith_def)

lemma contains_cgc_cgc:
  "contains ''cgc'' (''shellphish-qemu-cgc-'' @ a)"
  by (simp add: startswith_def)

lemma contains_cgc_variant:
  "contains ''cgc'' (qemu_variant tgt b)
     = (target_os tgt = ''cgc'' \<or> contains ''cgc'' (target_arch tgt))"
  using contains_cgc_cgc contains_cgc_linux by (simp add: qemu_variant_def)

lemma write_all_bytes:
  "map chunk_bytes ts = map Inr bs \<Longrightarrow>
     write_all ts p = (p\<lparr>proc_stdin := proc_stdin p @ map Write bs\<rparr>, None)"
proof (induction ts arbitrary: p bs)
  case Nil
  then show ?case by simp
next
  case (Cons t ts)
  then obtain b bs' where bs: "bs = b # bs'" "chunk_bytes t = Inr b"
    "map chunk_bytes ts = map Inr bs'"
    by (cases bs) auto
  from Cons.IH [OF bs(3)] bs(1,2) show ?case by (simp add: stdin_write_def)
qed

section \<open>Crash classification\<close>

text \<open>
  C5. In a session whose body ended without a timeout, a return code of 139 or of -11
  makes the result a crash with signal SIGSEGV, whatever happens in the later steps.
\<close>

theorem segv_classified:
  assumes "fire_context tgt nm opts body fs = ((r, fs'), e)"
    and "snd (body (started tgt nm opts)) = None"
    and "proc_exit tgt = Some 139 \<or> proc_exit tgt = Some (- 11)"
  shows "timed_out r = Some False \<and> returncode r = proc_exit tgt
         \<and> crashed r = Some True \<and> signal r = Some SIGSEGV"
  using assms(1)
proof (cases rule: fire_context_cases)
  case (raised x)
  with assms(2) show ?thesis by simp
next
  case ran
  from retrieve_all_keeps [OF ran(2)] assms(2,3) show ?thesis
    by (auto simp: classify_exit_def new_TraceResults_def Let_def py_in_def py_eq_def
                   py_of_returncode_def)
qed

theorem segv_classified_witness:
  "snd (idle_body (started (example_target ''linux'' (Some 139) [] []) example_names
                      default_options)) = None
   \<and> proc_exit (example_target ''linux'' (Some 139) [] []) = Some 139
   \<and> crashed (fst (fst (fire_context (example_target ''linux'' (Some 139) [] [])
                          example_names default_options idle_body []))) = Some True
   \<and> signal (fst (fst (fire_context (example_target ''linux'' (Some 139) [] [])
                         example_names default_options idle_body []))) = Some SIGSEGV"
  using segv_classified [of "example_target ''linux'' (Some 139) [] []" example_names
      default_options idle_body "[]"
      "fst (fst (fire_context (example_target ''linux'' (Some 139) [] [])
                   example_names default_options idle_body []))"
      "snd (fst (fire_context (example_target ''linux'' (Some 139) [] [])
                   example_names default_options idle_body []))"
      "snd (fire_context (example_target ''linux'' (Some 139) [] [])
                   example_names default_options idle_body [])"]
  by (simp add: idle_body_def example_target_def)

text \<open>
  C1. The comparison of the return code with the list \<open>[132, -9]\<close> is never true: a
  return code of 132 or of -9 leaves the crash flag and the signal unset, so the result
  is not classified as an illegal-instruction crash.
\<close>

theorem sigill_never_classified:
  assumes "fire_context tgt nm opts body fs = ((r, fs'), e)"
    and "proc_exit tgt = Some 132 \<or> proc_exit tgt = Some (- 9)"
  shows "crashed r = None \<and> signal r = None"
  using assms(1)
proof (cases rule: fire_context_cases)
  case (raised x)
  then show ?thesis by (simp add: new_TraceResults_def)
next
  case ran
  from retrieve_all_keeps [OF ran(2)] assms(2) show ?thesis
    by (auto simp: classify_exit_def new_TraceResults_def Let_def py_in_def py_eq_def
                   py_of_returncode_def)
qed

theorem sigill_never_classified_witness:
  "proc_exit (example_target ''linux'' (Some 132) [] []) = Some 132
   \<and> timed_out (fst (fst (fire_context (example_target ''linux'' (Some 132) [] [])
                          example_names default_options idle_body []))) = Some False
   \<and> crashed (fst (fst (fire_context (example_target ''linux'' (Some 132) [] [])
                          example_names default_options idle_body []))) = None
   \<and> signal (fst (fst (fire_context (example_target ''linux'' (Some 132) [] [])
                         example_names default_options idle_body []))) = None"
proof -
  let ?t = "example_target ''linux'' (Some 132) [] []"
  let ?o = "fire_context ?t example_names default_options idle_body []"
  have x: "proc_exit ?t = Some 132" by (simp add: example_target_def)
  have eq: "?o = ((fst (fst ?o), snd (fst ?o)), snd ?o)" by simp
  have "timed_out (fst (fst ?o)) = Some False"
    using eq
  proof (cases rule: fire_context_cases)
    case (raised y)
    then show ?thesis by (simp add: idle_body_def)
  next
    case ran
    from retrieve_all_keeps [OF ran(2)] show ?thesis
      by (simp add: classify_exit_def idle_body_def Let_def split: if_splits)
  qed
  with sigill_never_classified [OF eq] x show ?thesis by simp
qed

text \<open>The sessions on the Linux target with the ten-block trace.\<close>

lemma linux_session:
  assumes "fire_context (linux_trace_target rc) example_names default_options body []
             = ((r, fs'), e)"
    and "snd (body (started (linux_trace_target rc) example_names default_options)) = None
         \<or> snd (body (started (linux_trace_target rc) example_names default_options))
             = Some TimeoutExpired"
  shows "base_address r = Some 0x400000"
    and "trace r = Some [0x401000, 0x401020, 0x401036, 0x401040, 0x401056, 0x401020,
                         0x401036, 0x40105e, 0x401070, 0x401000]"
    and "e = None"
    and "crashed r = Some True \<Longrightarrow> crash_address r = Some 0x401000"
proof -
  have tf: "target_files (linux_trace_target rc) (tmp_prefix example_names @ ''.trace'')
                = Some (trace_file (target_os (linux_trace_target rc) = ''cgc'') ''400000''
                          ten_blocks)"
    by (simp add: linux_trace_target_simps example_simps)
  have wf: "list_all (wf_entry (target_os (linux_trace_target rc) = ''cgc'')) ten_blocks"
    using ten_blocks_wf by (simp add: linux_trace_target_simps)
  have ne: "ten_blocks \<noteq> []" by (simp add: ten_blocks_def)
  have la: "hex_value (te_addr (last ten_blocks)) = 0x401000"
    by (simp add: ten_blocks_def block_def hex_value_def hex_digit_val_def)
  note t = traced_session [OF assms(1,2) example_simps(4,6) tf hex_examples(1) wf]
  from t(1) show "base_address r = Some 0x400000" by (simp add: hex_examples)
  from t(2) show "trace r = Some [0x401000, 0x401020, 0x401036, 0x401040, 0x401056, 0x401020,
                         0x401036, 0x40105e, 0x401070, 0x401000]"
    by (simp add: ten_blocks_addrs)
  from t(4) ne show "e = None" by (simp add: example_simps)
  from t(3) ne la show "crash_address r = Some 0x401000" if "crashed r = Some True"
    using that by simp
qed

lemma outcome_eta: "(x :: outcome) = ((fst (fst x), snd (fst x)), snd x)"
  by simp

section \<open>Timed-out sessions\<close>

text \<open>
  C2. When the result has \<open>timed_out = True\<close>, the return code, the crash flag, the
  signal and the crash address are absent. The trace and the base address do not
  depend on the timeout: they are absent when trace recording was not requested, and
  present in every session that recorded a trace and ended without an exception,
  timed out or not.
\<close>

theorem timed_out_fields:
  assumes "fire_context tgt nm opts body fs = ((r, fs'), e)"
  shows "(timed_out r = Some True \<longrightarrow>
            returncode r = None \<and> crashed r = None \<and> signal r = None \<and> crash_address r = None)
       \<and> (\<not> record_trace opts \<longrightarrow> trace r = None \<and> base_address r = None)
       \<and> (record_trace opts \<and> e = None \<longrightarrow> trace r \<noteq> None \<and> base_address r \<noteq> None)"
  using assms
proof (cases rule: fire_context_cases)
  case (raised x)
  then show ?thesis by (simp add: new_TraceResults_def)
next
  case ran
  let ?r0 = "new_TraceResults\<lparr>process :=
              Some ((fst (body (started tgt nm opts)))\<lparr>proc_returncode := proc_exit tgt\<rparr>),
            timed_out := Some (snd (body (started tgt nm opts)) = Some TimeoutExpired)\<rparr>"
  have init: "trace (classify_exit ?r0) = None" "base_address (classify_exit ?r0) = None"
    "crash_address (classify_exit ?r0) = None"
    by (simp_all add: classify_exit_keeps new_TraceResults_def)
  have to: "timed_out r = timed_out ?r0"
    using retrieve_all_keeps [OF ran(2)] by (simp add: classify_exit_keeps)
  have cl: "timed_out r = Some True \<longrightarrow> classify_exit ?r0 = ?r0"
    using to by (simp add: classify_exit_timed_out)
  have st: "timed_out r = Some True \<longrightarrow>
              returncode r = None \<and> crashed r = None \<and> signal r = None"
    using retrieve_all_keeps [OF ran(2)] cl by (auto simp: new_TraceResults_def)
  have cr: "timed_out r = Some True \<longrightarrow> crashed (classify_exit ?r0) \<noteq> Some True"
    using cl by (auto simp: new_TraceResults_def)
  from ran(2) show ?thesis
  proof (cases rule: retrieve_all_cases)
    case (core_failed x)
    from retrieve_core_keeps [OF core_failed(1)] init st core_failed(2) show ?thesis by simp
  next
    case (trace_failed r1 fs1 x)
    note k1 = retrieve_core_keeps [OF trace_failed(1)]
    note f = retrieve_trace_fields [OF trace_failed(2)]
    from k1 f init st cr trace_failed(3) show ?thesis
      by (auto simp: truthy_names)
  next
    case (magic_reached r1 fs1 r2 fs2)
    note k1 = retrieve_core_keeps [OF magic_reached(1)]
    note f = retrieve_trace_fields [OF magic_reached(2)]
    note k3 = retrieve_magic_keeps [OF magic_reached(3)]
    from k1 f k3 init st cr show ?thesis
      by (auto simp: truthy_names)
  qed
qed

text \<open>The session whose wait timed out has a trace of ten blocks and a base address.\<close>

theorem timed_out_counterexample:
  "timed_out (fst (fst timed_out_session)) = Some True
   \<and> record_trace default_options
   \<and> trace (fst (fst timed_out_session))
       = Some [0x401000, 0x401020, 0x401036, 0x401040, 0x401056, 0x401020, 0x401036,
               0x40105e, 0x401070, 0x401000]
   \<and> base_address (fst (fst timed_out_session)) = Some 0x400000"
  using linux_session(1,2) [OF outcome_eta [of timed_out_session, unfolded timed_out_session_def]]
    session_status(1) [OF outcome_eta [of timed_out_session, unfolded timed_out_session_def]]
  by (simp add: example_simps timed_out_session_def)

theorem timed_out_fields_witness:
  "timed_out (fst (fst timed_out_session)) = Some True
   \<and> record_trace default_options \<and> snd timed_out_session = None
   \<and> returncode (fst (fst timed_out_session)) = None
   \<and> crashed (fst (fst timed_out_session)) = None
   \<and> signal (fst (fst timed_out_session)) = None
   \<and> crash_address (fst (fst timed_out_session)) = None
   \<and> trace (fst (fst timed_out_session)) \<noteq> None
   \<and> base_address (fst (fst timed_out_session)) \<noteq> None"
  using timed_out_fields [OF outcome_eta [of timed_out_session, unfolded timed_out_session_def]]
    linux_session(3) [OF outcome_eta [of timed_out_session, unfolded timed_out_session_def]]
    session_status(1) [OF outcome_eta [of timed_out_session, unfolded timed_out_session_def]]
  by (simp add: example_simps timed_out_session_def)

section \<open>The crash address\<close>

text \<open>
  C3. In a session that recorded a trace and whose result is a crash, the process did
  not time out, a non-empty trace has its last element as the crash address, an empty
  trace comes with the exception IndexError, and a session that ends without an
  exception has a trace.
\<close>

theorem crash_address_is_last:
  assumes "fire_context tgt nm opts body fs = ((r, fs'), e)"
    and "record_trace opts" and "crashed r = Some True"
  shows "(\<forall>tr. trace r = Some tr \<longrightarrow>
            (tr \<noteq> [] \<longrightarrow> crash_address r = Some (last tr))
          \<and> (tr = [] \<longrightarrow> e = Some IndexError))
       \<and> (e = None \<longrightarrow>
            (\<exists>tr. trace r = Some tr \<and> tr \<noteq> [] \<and> crash_address r = Some (last tr)))
       \<and> timed_out r = Some False"
  using assms(1)
proof (cases rule: fire_context_cases)
  case (raised x)
  with assms(3) show ?thesis by (simp add: new_TraceResults_def)
next
  case ran
  let ?r0 = "new_TraceResults\<lparr>process :=
              Some ((fst (body (started tgt nm opts)))\<lparr>proc_returncode := proc_exit tgt\<rparr>),
            timed_out := Some (snd (body (started tgt nm opts)) = Some TimeoutExpired)\<rparr>"
  have init: "trace (classify_exit ?r0) = None" "crash_address (classify_exit ?r0) = None"
    by (simp_all add: classify_exit_keeps new_TraceResults_def)
  have cr0: "crashed (classify_exit ?r0) = Some True"
    using retrieve_all_keeps [OF ran(2)] assms(3) by simp
  have to: "timed_out r = Some False"
  proof -
    have "timed_out r = timed_out ?r0"
      using retrieve_all_keeps [OF ran(2)] by (simp add: classify_exit_keeps)
    moreover have "timed_out ?r0 \<noteq> Some True"
      using cr0 classify_exit_timed_out [of ?r0] by (auto simp: new_TraceResults_def)
    ultimately show ?thesis by auto
  qed
  from ran(2) show ?thesis
  proof (cases rule: retrieve_all_cases)
    case (core_failed x)
    from retrieve_core_keeps [OF core_failed(1)] init core_failed(2) to show ?thesis by simp
  next
    case (trace_failed r1 fs1 x)
    note k1 = retrieve_core_keeps [OF trace_failed(1)]
    note f = retrieve_trace_fields [OF trace_failed(2)]
    from k1 f(4) init cr0 to trace_failed(3) show ?thesis by auto
  next
    case (magic_reached r1 fs1 r2 fs2)
    note k1 = retrieve_core_keeps [OF magic_reached(1)]
    note f = retrieve_trace_fields [OF magic_reached(2)]
    note k3 = retrieve_magic_keeps [OF magic_reached(3)]
    from k1 f(2,4) k3 init cr0 to assms(2) show ?thesis
      by (auto simp: truthy_names)
  qed
qed

theorem crash_address_is_last_witness:
  "record_trace default_options
   \<and> crashed (fst (fst crashed_session)) = Some True
   \<and> snd crashed_session = None
   \<and> trace (fst (fst crashed_session))
       = Some [0x401000, 0x401020, 0x401036, 0x401040, 0x401056, 0x401020, 0x401036,
               0x40105e, 0x401070, 0x401000]
   \<and> crash_address (fst (fst crashed_session)) = Some 0x401000
   \<and> timed_out (fst (fst crashed_session)) = Some False"
proof -
  note eq = outcome_eta [of crashed_session, unfolded crashed_session_def]
  have cr: "crashed (fst (fst crashed_session)) = Some True"
    using session_status(3) [OF eq]
    by (simp add: example_simps linux_trace_target_simps crashed_session_def)
  from crash_address_is_last [OF eq example_simps(4) cr [unfolded crashed_session_def]]
    linux_session(2,3) [OF eq] cr
  show ?thesis by (simp add: example_simps crashed_session_def)
qed

section \<open>The trace parser\<close>

text \<open>
  C4. When the trace file is a load-base line for the hexadecimal address \<open>h0\<close>
  followed by well-formed trace entries in the format of the target's OS family, the
  trace step sets the base address to the value of \<open>h0\<close> and the trace to the
  addresses of the entries, one for each entry and in the order of the lines.
\<close>

theorem trace_file_round_trip:
  assumes "target_files tgt f = Some (trace_file (target_os tgt = ''cgc'') h0 ts)"
    and "f \<noteq> []" and "is_hex h0" and "list_all (wf_entry (target_os tgt = ''cgc'')) ts"
    and "retrieve_trace tgt (Some f) (r, fs) = ((r', fs'), e)"
  shows "base_address r' = Some (hex_value h0)
       \<and> trace r' = Some (map (\<lambda>t. hex_value (te_addr t)) ts)
       \<and> map_option length (trace r') = Some (length ts)
       \<and> (crashed r \<noteq> Some True \<or> ts \<noteq> [] \<longrightarrow> e = None)"
  using retrieve_trace_wf [OF assms(1-4), of r fs] assms(5)
  by (auto split: if_splits)

theorem trace_file_round_trip_witness:
  "is_hex ''8048000'' \<and> list_all (wf_entry True) two_blocks
   \<and> base_address (fst (fst (retrieve_trace (cgc_trace_target (Some 0))
        (Some ''/tmp/tracer-b.trace'') (new_TraceResults, [])))) = Some 0x8048000
   \<and> trace (fst (fst (retrieve_trace (cgc_trace_target (Some 0))
        (Some ''/tmp/tracer-b.trace'') (new_TraceResults, [])))) = Some [0x8048000, 0x804801c]
   \<and> is_hex ''400000'' \<and> list_all (wf_entry False) ten_blocks
   \<and> base_address (fst (fst (retrieve_trace (linux_trace_target (Some 0))
        (Some ''/tmp/tracer-b.trace'') (new_TraceResults, [])))) = Some 0x400000
   \<and> map_option length (trace (fst (fst (retrieve_trace (linux_trace_target (Some 0))
        (Some ''/tmp/tracer-b.trace'') (new_TraceResults, []))))) = Some 10"
proof -
  have c: "target_files (cgc_trace_target (Some 0)) ''/tmp/tracer-b.trace''
             = Some (trace_file (target_os (cgc_trace_target (Some 0)) = ''cgc'') ''8048000''
                       two_blocks)"
    by (simp add: cgc_trace_target_simps)
  have cw: "list_all (wf_entry (target_os (cgc_trace_target (Some 0)) = ''cgc'')) two_blocks"
    using two_blocks_wf by (simp add: cgc_trace_target_simps)
  have l: "target_files (linux_trace_target (Some 0)) ''/tmp/tracer-b.trace''
             = Some (trace_file (target_os (linux_trace_target (Some 0)) = ''cgc'') ''400000''
                       ten_blocks)"
    by (simp add: linux_trace_target_simps)
  have lw: "list_all (wf_entry (target_os (linux_trace_target (Some 0)) = ''cgc'')) ten_blocks"
    using ten_blocks_wf by (simp add: linux_trace_target_simps)
  from trace_file_round_trip [OF c _ hex_examples(3) cw outcome_eta]
    trace_file_round_trip [OF l _ hex_examples(1) lw outcome_eta]
    two_blocks_wf ten_blocks_wf
  show ?thesis
    by (simp add: hex_examples two_blocks_addrs ten_blocks_def)
qed

section \<open>The magic page\<close>

text \<open>
  C6. In a session that captures the magic page, a buffer that was retrieved is the
  contents of the magic file and is stored in the result; if its length is not 4096
  the session raises ArchrError, and if its length is 4096 it raises nothing. A
  session that ends without an exception has a stored buffer of 4096 bytes.
\<close>

theorem magic_page_size:
  assumes "fire_context tgt nm opts body fs = ((r, fs'), e)" and "record_magic opts"
  shows "(\<forall>m. magic_contents r = Some m \<longrightarrow>
            target_files tgt (tmp_prefix nm @ ''.magic'') = Some m
            \<and> e = (if length m \<noteq> 4096
                   then Some (ArchrError
                     ''Magic content read from QEMU improper size, should be a page in length'')
                   else None))
       \<and> (e = None \<longrightarrow> (\<exists>m. magic_contents r = Some m \<and> length m = 4096))"
  using assms(1)
proof (cases rule: fire_context_cases)
  case (raised x)
  then show ?thesis by (simp add: new_TraceResults_def)
next
  case ran
  let ?r0 = "new_TraceResults\<lparr>process :=
              Some ((fst (body (started tgt nm opts)))\<lparr>proc_returncode := proc_exit tgt\<rparr>),
            timed_out := Some (snd (body (started tgt nm opts)) = Some TimeoutExpired)\<rparr>"
  have init: "magic_contents (classify_exit ?r0) = None"
    by (simp add: classify_exit_keeps new_TraceResults_def)
  have nm: "the (target_magic_filename nm opts) = tmp_prefix nm @ ''.magic''"
    using assms(2) by (simp add: target_magic_filename_def)
  from ran(2) show ?thesis
  proof (cases rule: retrieve_all_cases)
    case (core_failed x)
    from retrieve_core_keeps [OF core_failed(1)] init core_failed(2) show ?thesis by simp
  next
    case (trace_failed r1 fs1 x)
    from retrieve_core_keeps [OF trace_failed(1)] retrieve_trace_keeps [OF trace_failed(2)]
      init trace_failed(3)
    show ?thesis by simp
  next
    case (magic_reached r1 fs1 r2 fs2)
    have "magic_contents r2 = None"
      using retrieve_core_keeps [OF magic_reached(1)] retrieve_trace_keeps [OF magic_reached(2)]
        init by simp
    from retrieve_magic_fields [OF magic_reached(3) this] assms(2) nm
    show ?thesis by (simp add: truthy_names)
  qed
qed

theorem magic_page_size_witness:
  "record_magic (default_options\<lparr>record_trace := False, record_magic := True\<rparr>)
   \<and> magic_contents (fst (fst (magic_session 4096))) = Some (replicate 4096 (CHR 0x41))
   \<and> snd (magic_session 4096) = None
   \<and> magic_contents (fst (fst (magic_session 100))) = Some (replicate 100 (CHR 0x41))
   \<and> snd (magic_session 100)
       = Some (ArchrError
           ''Magic content read from QEMU improper size, should be a page in length'')"
proof -
  have rm: "record_magic (default_options\<lparr>record_trace := False, record_magic := True\<rparr>)"
    by simp
  from magic_page_size [OF outcome_eta [of "magic_session 4096", unfolded magic_session_def] rm]
    magic_page_size [OF outcome_eta [of "magic_session 100", unfolded magic_session_def] rm]
    magic_session_contents [of 4096] magic_session_contents [of 100]
  show ?thesis by (simp add: magic_session_def)
qed

section \<open>The core file\<close>

text \<open>
  C7. In a session that saves the core file and whose body raised at most a timeout:
  if the glob for \<open>qemu_*.core\<close> in the scratch directory does not resolve to exactly
  one path, the session raises ArchrError with the number of paths found, and
  nothing is stored. If it resolves to exactly one path, of a core file that the
  target can deliver, and the local temporary directory is fresh, then the contents
  of that file end up at the requested local path, the path is recorded in the
  result, and with no trace and no magic page requested the session raises nothing.
\<close>

theorem core_file_retrieval:
  assumes "fire_context tgt nm opts body fs = ((r, fs'), e)" and "save_core opts"
    and "snd (body (started tgt nm opts)) = None
         \<or> snd (body (started tgt nm opts)) = Some TimeoutExpired"
  shows "(length (resolve_glob tgt (path_join (tmpdir nm) ''qemu_*.core'')) \<noteq> 1 \<longrightarrow>
            e = Some (ArchrError (''expected 1 core file but found ''
                  @ str_nat (length (resolve_glob tgt (path_join (tmpdir nm) ''qemu_*.core'')))))
            \<and> core_path r = None \<and> fs' = fs)
       \<and> (\<forall>c b. resolve_glob tgt (path_join (tmpdir nm) ''qemu_*.core'') = [c]
               \<and> target_files tgt c = Some b \<and> is_core_name (basename c)
               \<and> local_glob_cores (local_tmpdir nm) fs = []
               \<and> \<not> startswith (tmp_prefix nm @ ''.core'') (local_tmpdir nm @ ''/'') \<longrightarrow>
            core_path r = Some (tmp_prefix nm @ ''.core'')
            \<and> map_of fs' (tmp_prefix nm @ ''.core'') = Some b
            \<and> (\<not> record_trace opts \<and> \<not> record_magic opts \<longrightarrow> e = None))"
  using assms(1)
proof (cases rule: fire_context_cases)
  case (raised x)
  with assms(3) show ?thesis by auto
next
  case ran
  let ?r0 = "classify_exit (new_TraceResults\<lparr>process :=
              Some ((fst (body (started tgt nm opts)))\<lparr>proc_returncode := proc_exit tgt\<rparr>),
            timed_out := Some (snd (body (started tgt nm opts)) = Some TimeoutExpired)\<rparr>)"
  let ?lcf = "tmp_prefix nm @ ''.core''"
  let ?g = "resolve_glob tgt (path_join (tmpdir nm) ''qemu_*.core'')"
  have lcf: "local_core_filename nm opts = Some ?lcf"
    using assms(2) by (simp add: local_core_filename_def)
  have init: "core_path ?r0 = None"
    by (simp add: classify_exit_keeps new_TraceResults_def)
  have bad: "length ?g \<noteq> 1 \<Longrightarrow>
      retrieve_core tgt nm (local_core_filename nm opts) (?r0, fs)
        = ((?r0, fs), Some (ArchrError (''expected 1 core file but found '' @ str_nat (length ?g))))"
    by (rule retrieve_core_count) (simp_all add: truthy_names assms(2))
  have good: "\<exists>fs1. retrieve_core tgt nm (local_core_filename nm opts) (?r0, fs)
                 = ((?r0\<lparr>core_path := Some ?lcf\<rparr>, fs1), None) \<and> map_of fs1 ?lcf = Some b"
    if "?g = [c]" "target_files tgt c = Some b" "is_core_name (basename c)"
      "local_glob_cores (local_tmpdir nm) fs = []"
      "\<not> startswith ?lcf (local_tmpdir nm @ ''/'')" for c b
    unfolding lcf using that by (intro retrieve_core_one) simp_all
  from ran(2) show ?thesis
  proof (cases rule: retrieve_all_cases)
    case (core_failed x)
    have p1: "e = Some (ArchrError (''expected 1 core file but found '' @ str_nat (length ?g)))
            \<and> core_path r = None \<and> fs' = fs" if "length ?g \<noteq> 1"
      using bad [OF that] core_failed init
      by simp
    have p2: "core_path r = Some ?lcf \<and> map_of fs' ?lcf = Some b
            \<and> (\<not> record_trace opts \<and> \<not> record_magic opts \<longrightarrow> e = None)"
      if "?g = [c] \<and> target_files tgt c = Some b \<and> is_core_name (basename c)
               \<and> local_glob_cores (local_tmpdir nm) fs = []
               \<and> \<not> startswith ?lcf (local_tmpdir nm @ ''/'')" for c b
      using that good [of c b] core_failed(1)
      by auto
    from p1 p2 show ?thesis by blast
  next
    case (trace_failed r1 fs1 x)
    note kt = retrieve_trace_keeps [OF trace_failed(2)]
    note ft = retrieve_trace_fields(1) [OF trace_failed(2)]
    have p1: "e = Some (ArchrError (''expected 1 core file but found '' @ str_nat (length ?g)))
            \<and> core_path r = None \<and> fs' = fs" if "length ?g \<noteq> 1"
      using bad [OF that] trace_failed(1)
      by simp
    have p2: "core_path r = Some ?lcf \<and> map_of fs' ?lcf = Some b
            \<and> (\<not> record_trace opts \<and> \<not> record_magic opts \<longrightarrow> e = None)"
      if "?g = [c] \<and> target_files tgt c = Some b \<and> is_core_name (basename c)
               \<and> local_glob_cores (local_tmpdir nm) fs = []
               \<and> \<not> startswith ?lcf (local_tmpdir nm @ ''/'')" for c b
      using that good [of c b] trace_failed(1) kt ft
      by (auto simp: truthy_names)
    from p1 p2 show ?thesis by blast
  next
    case (magic_reached r1 fs1 r2 fs2)
    note kt = retrieve_trace_keeps [OF magic_reached(2)]
    note km = retrieve_magic_keeps [OF magic_reached(3)]
    have fm: "\<not> record_magic opts \<longrightarrow> e = None"
      using magic_reached(3) by (auto simp: retrieve_magic_def truthy_names)
    have p1: "e = Some (ArchrError (''expected 1 core file but found '' @ str_nat (length ?g)))
            \<and> core_path r = None \<and> fs' = fs" if "length ?g \<noteq> 1"
      using bad [OF that] magic_reached(1)
      by simp
    have p2: "core_path r = Some ?lcf \<and> map_of fs' ?lcf = Some b
            \<and> (\<not> record_trace opts \<and> \<not> record_magic opts \<longrightarrow> e = None)"
      if "?g = [c] \<and> target_files tgt c = Some b \<and> is_core_name (basename c)
               \<and> local_glob_cores (local_tmpdir nm) fs = []
               \<and> \<not> startswith ?lcf (local_tmpdir nm @ ''/'')" for c b
      using that good [of c b] magic_reached(1) kt km fm
      by auto
    from p1 p2 show ?thesis by blast
  qed
qed

theorem core_file_retrieval_witness:
  "save_core (default_options\<lparr>record_trace := False, save_core := True\<rparr>)
   \<and> snd (idle_body (started (core_target [''/tmp/tracer_a/qemu_true_20181012-101500_12.core''])
             example_names (default_options\<lparr>record_trace := False, save_core := True\<rparr>))) = None
   \<and> is_core_name (basename ''/tmp/tracer_a/qemu_true_20181012-101500_12.core'')
   \<and> core_path (fst (fst (core_session [''/tmp/tracer_a/qemu_true_20181012-101500_12.core''])))
       = Some ''/tmp/tracer-b.core''
   \<and> map_of (snd (fst (core_session [''/tmp/tracer_a/qemu_true_20181012-101500_12.core''])))
        ''/tmp/tracer-b.core'' = Some ''ELF-core''
   \<and> snd (core_session [''/tmp/tracer_a/qemu_true_20181012-101500_12.core'']) = None
   \<and> snd (core_session []) = Some (ArchrError ''expected 1 core file but found 0'')
   \<and> snd (core_session [''/tmp/tracer_a/qemu_a.core'', ''/tmp/tracer_a/qemu_b.core''])
       = Some (ArchrError ''expected 1 core file but found 2'')"
proof -
  let ?o = "default_options\<lparr>record_trace := False, save_core := True\<rparr>"
  let ?c = "''/tmp/tracer_a/qemu_true_20181012-101500_12.core''"
  have sc: "save_core ?o" by simp
  have ok: "snd (idle_body (started (core_target cs) example_names ?o)) = None
            \<or> snd (idle_body (started (core_target cs) example_names ?o)) = Some TimeoutExpired"
    for cs by (simp add: idle_body_def)
  have cn: "is_core_name (basename ?c)"
    by (simp add: is_core_name_def basename_def startswith_def endswith_def)
  have one: "resolve_glob (core_target [?c]) (path_join (tmpdir example_names) ''qemu_*.core'')
               = [?c]
             \<and> target_files (core_target [?c]) ?c = Some ''ELF-core''
             \<and> is_core_name (basename ?c)
             \<and> local_glob_cores (local_tmpdir example_names) [] = []
             \<and> \<not> startswith (tmp_prefix example_names @ ''.core'')
                   (local_tmpdir example_names @ ''/'')"
    using cn
    by (simp add: core_target_def example_target_def example_names_def local_glob_cores_def
          startswith_def)
  have n0: "length (resolve_glob (core_target [])
              (path_join (tmpdir example_names) ''qemu_*.core'')) = 0"
    by (simp add: core_target_def example_target_def)
  have n2: "length (resolve_glob (core_target [''/tmp/tracer_a/qemu_a.core'',
              ''/tmp/tracer_a/qemu_b.core''])
              (path_join (tmpdir example_names) ''qemu_*.core'')) = 2"
    by (simp add: core_target_def example_target_def)
  have d: "str_nat 0 = ''0''" "str_nat 2 = ''2''"
    by (simp_all add: str_nat.simps digit_char_def char_of_def bit_Suc_0_iff)
  note t1 = core_file_retrieval [OF outcome_eta [of "core_session [?c]",
      unfolded core_session_def] sc ok, THEN conjunct2, rule_format, OF one]
  note t0 = core_file_retrieval [OF outcome_eta [of "core_session []",
      unfolded core_session_def] sc ok, THEN conjunct1, unfolded n0]
  note t2 = core_file_retrieval [OF outcome_eta [of "core_session [''/tmp/tracer_a/qemu_a.core'',
      ''/tmp/tracer_a/qemu_b.core'']", unfolded core_session_def] sc ok, THEN conjunct1,
      unfolded n2]
  from t0 t1 t2 cn d show ?thesis
    by (simp add: core_session_def example_simps)
qed

section \<open>A session of ten blocks\<close>

text \<open>
  C8. A session with trace recording on, no magic page and no core file, whose body
  ends without a timeout, whose process ends with return code 0, and whose trace file
  is a load-base line for \<open>0x400000\<close> followed by ten well-formed trace entries: the
  session raises nothing, the crash flag is unset (\<open>None\<close>, not \<open>False\<close>), the base
  address is \<open>0x400000\<close>, the trace has ten entries, and \<open>timed_out\<close> is \<open>False\<close>. This
  holds for every time budget.
\<close>

theorem ten_block_session:
  assumes "fire_context tgt nm opts body fs = ((r, fs'), e)"
    and "snd (body (started tgt nm opts)) = None" and "proc_exit tgt = Some 0"
    and "record_trace opts" and "\<not> record_magic opts" and "\<not> save_core opts"
    and "target_files tgt (tmp_prefix nm @ ''.trace'')
           = Some (trace_file (target_os tgt = ''cgc'') h0 ts)"
    and "is_hex h0" and "hex_value h0 = 0x400000"
    and "list_all (wf_entry (target_os tgt = ''cgc'')) ts" and "length ts = 10"
  shows "e = None \<and> crashed r = None \<and> base_address r = Some 0x400000
       \<and> trace r = Some (map (\<lambda>t. hex_value (te_addr t)) ts)
       \<and> map_option length (trace r) = Some 10 \<and> timed_out r = Some False"
proof -
  have ok: "snd (body (started tgt nm opts)) = None
            \<or> snd (body (started tgt nm opts)) = Some TimeoutExpired"
    using assms(2) by simp
  note s = session_status [OF assms(1) ok]
  note t = traced_session [OF assms(1) ok assms(4) assms(6) assms(7) assms(8) assms(10)]
  have cr: "crashed r = None" using s(3) [OF assms(2)] assms(3) by simp
  from t(4) cr assms(5) have "e = None" by simp
  with cr t(1,2) s(1) assms(2,9,11) show ?thesis by simp
qed

text \<open>In the session that ended with return code 0 the crash flag is \<open>None\<close>.\<close>

theorem ten_block_session_counterexample:
  "snd completed_session = None
   \<and> timed_out (fst (fst completed_session)) = Some False
   \<and> crashed (fst (fst completed_session)) = None
   \<and> crashed (fst (fst completed_session)) \<noteq> Some False"
  using session_status(1,3) [OF outcome_eta [of completed_session, unfolded completed_session_def]]
    linux_session(3) [OF outcome_eta [of completed_session, unfolded completed_session_def]]
  by (simp add: example_simps linux_trace_target_simps completed_session_def)

theorem ten_block_session_witness:
  "snd (idle_body (started (linux_trace_target (Some 0)) example_names default_options)) = None
   \<and> proc_exit (linux_trace_target (Some 0)) = Some 0
   \<and> is_hex ''400000'' \<and> hex_value ''400000'' = 0x400000
   \<and> list_all (wf_entry False) ten_blocks \<and> length ten_blocks = 10
   \<and> snd completed_session = None
   \<and> crashed (fst (fst completed_session)) = None
   \<and> base_address (fst (fst completed_session)) = Some 0x400000
   \<and> map_option length (trace (fst (fst completed_session))) = Some 10
   \<and> timed_out (fst (fst completed_session)) = Some False"
proof -
  let ?t = "linux_trace_target (Some 0)"
  have tf: "target_files ?t (tmp_prefix example_names @ ''.trace'')
                = Some (trace_file (target_os ?t = ''cgc'') ''400000'' ten_blocks)"
    by (simp add: linux_trace_target_simps example_simps)
  have wf: "list_all (wf_entry (target_os ?t = ''cgc'')) ten_blocks"
    using ten_blocks_wf by (simp add: linux_trace_target_simps)
  have len: "length ten_blocks = 10" by (simp add: ten_blocks_def)
  from ten_block_session [OF outcome_eta [of completed_session, unfolded completed_session_def]
      example_simps(7) linux_trace_target_simps(2) example_simps(4,5,6) tf hex_examples(1,2)
      wf len]
    ten_blocks_wf len
  show ?thesis
    by (simp add: example_simps linux_trace_target_simps hex_examples completed_session_def)
qed

section \<open>The tracing flags of the command\<close>

text \<open>
  C9. For a target whose architecture tag does not contain \<open>cgc\<close> (no architecture
  tag does), the command of a session continues, after the launcher, the variant and
  the core directory: when trace recording is requested, with \<open>-d exec -D\<close> and the
  trace file for the CGC OS family and with \<open>-d nochain,exec,page -D\<close> and the trace
  file for every other family; when trace recording is not requested, with
  \<open>-enable_double_empty_exiting\<close>.
\<close>

theorem trace_flags:
  assumes "\<not> contains ''cgc'' (target_arch tgt)"
  shows "take (if record_trace opts then 8 else 5) (target_cmd tgt nm opts)
     = [''/tmp/shellphish_qemu/fire'', qemu_variant tgt (record_trace opts), ''-C'', tmpdir nm]
       @ (if record_trace opts then
            (if target_os tgt = ''cgc''
             then [''-d'', ''exec'', ''-D'', tmp_prefix nm @ ''.trace'']
             else [''-d'', ''nochain,exec,page'', ''-D'', tmp_prefix nm @ ''.trace''])
          else [''-enable_double_empty_exiting''])"
  using assms
  by (simp add: target_cmd_def build_command_def target_trace_filename_def truthy_def
        Let_def contains_cgc_variant)

theorem trace_flags_witness:
  "\<not> contains ''cgc'' (target_arch (example_target ''linux'' None [] []))
   \<and> \<not> contains ''cgc'' (target_arch (example_target ''cgc'' None [] []))
   \<and> take 8 (target_cmd (example_target ''linux'' None [] []) example_names default_options)
     = [''/tmp/shellphish_qemu/fire'', ''shellphish-qemu-linux-x86_64'', ''-C'', ''/tmp/tracer_a'',
        ''-d'', ''nochain,exec,page'', ''-D'', ''/tmp/tracer-b.trace'']
   \<and> take 8 (target_cmd (example_target ''cgc'' None [] []) example_names default_options)
     = [''/tmp/shellphish_qemu/fire'', ''shellphish-qemu-cgc-tracer'', ''-C'', ''/tmp/tracer_a'',
        ''-d'', ''exec'', ''-D'', ''/tmp/tracer-b.trace'']
   \<and> take 5 (target_cmd (example_target ''linux'' None [] []) example_names
                (default_options\<lparr>record_trace := False\<rparr>))
     = [''/tmp/shellphish_qemu/fire'', ''shellphish-qemu-linux-x86_64'', ''-C'', ''/tmp/tracer_a'',
        ''-enable_double_empty_exiting'']"
proof -
  have l: "\<not> contains ''cgc'' (target_arch (example_target ''linux'' None [] []))"
    by (simp add: example_target_def startswith_def)
  have c: "\<not> contains ''cgc'' (target_arch (example_target ''cgc'' None [] []))"
    by (simp add: example_target_def startswith_def)
  from trace_flags [OF l, of default_options example_names]
    trace_flags [OF c, of default_options example_names]
    trace_flags [OF l, of "default_options\<lparr>record_trace := False\<rparr>" example_names]
    l c
  show ?thesis
    by (simp add: example_target_def example_names_def default_options_def qemu_variant_def
          startswith_def)
qed

section \<open>One test case for \<open>fire\<close>\<close>

text \<open>
  C10. A call of \<open>fire\<close> with one \<open>bytes\<close> value, or with one \<open>str\<close> value that has a
  UTF-8 encoding, does what the call with the list of that one value does: the bytes
  of the value are written to the standard input of the process, the input is
  closed after that, inside the scope of \<open>fire_context\<close>, and the session did not time
  out.
\<close>

theorem fire_single_testcase:
  assumes "fire tgt nm opts (Single t) fs = ((r, fs'), e)" and "chunk_bytes t = Inr b"
  shows "fire tgt nm opts (Many [t]) fs = ((r, fs'), e)
       \<and> map_option proc_stdin (process r) = Some [Write b, Close]
       \<and> timed_out r = Some False"
proof -
  have same: "fire tgt nm opts (Many [t]) fs = fire tgt nm opts (Single t) fs"
    by (simp add: fire_def as_list_def)
  have body: "fire_body [t] (started tgt nm opts)
                = ((started tgt nm opts)\<lparr>proc_stdin := [Write b, Close]\<rparr>, None)"
    using write_all_bytes [of "[t]" "[b]" "started tgt nm opts"] assms(2)
    by (simp add: fire_body_def stdin_close_def started_def)
  from assms(1) have "fire_context tgt nm opts (fire_body [t]) fs = ((r, fs'), e)"
    by (simp add: fire_def as_list_def)
  then have "map_option proc_stdin (process r) = Some [Write b, Close] \<and> timed_out r = Some False"
  proof (cases rule: fire_context_cases)
    case (raised x)
    with body show ?thesis by simp
  next
    case ran
    from retrieve_all_keeps [OF ran(2)] body
    show ?thesis by (simp add: classify_exit_keeps)
  qed
  with same assms(1) show ?thesis by simp
qed

theorem fire_single_testcase_counterexample:
  "snd (fire (example_target ''linux'' (Some 0) [] []) example_names
          (default_options\<lparr>record_trace := False\<rparr>) (Single (Str [0xD800])) [])
     = Some UnicodeEncodeError
   \<and> map_option proc_stdin (process (fst (fst
        (fire (example_target ''linux'' (Some 0) [] []) example_names
           (default_options\<lparr>record_trace := False\<rparr>) (Single (Str [0xD800])) []))))
     = Some []"
  by (simp add: fire_def as_list_def fire_context_def fire_body_def chunk_bytes_def
        utf8_char_def started_def Let_def)

theorem fire_single_testcase_witness:
  "chunk_bytes (Str [0x68, 0x69, 0xE9]) = Inr [CHR ''h'', CHR ''i'', CHR 0xC3, CHR 0xA9]
   \<and> map_option proc_stdin (process (fst (fst
        (fire (example_target ''linux'' (Some 0) [] []) example_names
           (default_options\<lparr>record_trace := False\<rparr>) (Single (Str [0x68, 0x69, 0xE9])) []))))
       = Some [Write [CHR ''h'', CHR ''i'', CHR 0xC3, CHR 0xA9], Close]
   \<and> chunk_bytes (Bytes ''hi'') = Inr ''hi''
   \<and> map_option proc_stdin (process (fst (fst
        (fire (example_target ''linux'' (Some 0) [] []) example_names
           (default_options\<lparr>record_trace := False\<rparr>) (Single (Bytes ''hi'')) []))))
       = Some [Write ''hi'', Close]"
proof -
  have s: "chunk_bytes (Str [0x68, 0x69, 0xE9]) = Inr [CHR ''h'', CHR ''i'', CHR 0xC3, CHR 0xA9]"
    by (simp add: chunk_bytes_def utf8_char_def char_of_def bit_Suc_0_iff)
  have b: "chunk_bytes (Bytes ''hi'') = Inr ''hi''"
    by (simp add: chunk_bytes_def)
  from fire_single_testcase [OF outcome_eta s] fire_single_testcase [OF outcome_eta b] s b
  show ?thesis by simp
qed

end
